theory Spec2Isabelle
  imports Complex_Main
begin

section \<open>Heatwave detection: data model\<close>

text \<open>
  The pipeline works on pandas tables; a table is modelled as the list of its rows and a
  row as a record of the columns the code reads. Temperatures and percentiles are
  floating-point numbers in the code; they are modelled as exact reals, so rounding is
  not part of the model. Python errors are values of \<open>py_error\<close>.
\<close>

datatype py_error = ZeroDivisionError | ValueError | AttributeError

text \<open>
  A row of the daily table \<open>vt\<close> (one row per grid cell and date): the integer grid
  coordinates, the day of year and the temperature.
\<close>

record DailyRecord =
  x :: int
  y :: int
  ytime :: int
  t2m :: real

text \<open>
  A row of the extreme-event table \<open>extr\<close>/\<open>rex\<close> (Heatwave\_Detection.py) as
  \<open>create_cpv\<close> receives it. \<open>itime\<close> is the dense day index of the column \<open>time\<close>
  (\<open>tdic\<close> enumerates \<open>pd.date_range(..., freq='D')\<close>), so a difference of two
  \<open>time\<close> values, in days, is the difference of their \<open>itime\<close> values.
\<close>

record EventRecord = DailyRecord +
  itime :: int
  g_id :: nat
  magnitude :: real

section \<open>Magnitude of an extreme event (calc\_mag)\<close>

text \<open>
  The row \<open>calc_mag\<close> is applied to: the temperature and the 25th and 75th percentile of
  the cell's annual maxima, merged into the row by \<open>pd.merge(extr, ggg, on=['x','y'])\<close>.
\<close>

record mag_row =
  row_t2m :: real
  t2m_amax_perc25 :: real
  t2m_amax_perc75 :: real

text \<open>
  \<^verbatim>\<open>
  def calc_mag(data):
      if data.t2m > data.t2m_amax_perc25:
          return (data.t2m - data.t2m_amax_perc25) / (data.t2m_amax_perc75 - data.t2m_amax_perc25)
      return 0
  \<close>
  The quotient is the only operation that can fail. With a zero denominator Python's
  float division raises ZeroDivisionError and NumPy's float division gives \<open>inf\<close>
  (the numerator is positive in that branch); the model records both as the error value
  \<open>ZeroDivisionError\<close>: no finite magnitude is produced.
\<close>

definition py_truediv :: "real \<Rightarrow> real \<Rightarrow> py_error + real" where
  "py_truediv a b = (if b = 0 then Inl ZeroDivisionError else Inr (a / b))"

definition calc_mag :: "mag_row \<Rightarrow> py_error + real" where
  "calc_mag data =
     (if row_t2m data > t2m_amax_perc25 data
      then py_truediv (row_t2m data - t2m_amax_perc25 data)
                      (t2m_amax_perc75 data - t2m_amax_perc25 data)
      else Inr 0)"

section \<open>Season of a day of year (assign\_season)\<close>

text \<open>
  \<^verbatim>\<open>
  def assign_season(doy):
      if 1 <= doy <= 90:      return 1
      elif 91 <= doy <= 180:  return 2
      elif 181 <= doy <= 270: return 3
      elif 271 <= doy <= 360: return 4
      else:                   return np.nan  # Handle invalid days
  \<close>
  The result is a season number or NaN.
\<close>

datatype season_value = Season int | NaN

definition assign_season :: "int \<Rightarrow> season_value" where
  "assign_season doy =
     (if 1 \<le> doy \<and> doy \<le> 90 then Season 1
      else if 91 \<le> doy \<and> doy \<le> 180 then Season 2
      else if 181 \<le> doy \<and> doy \<le> 270 then Season 3
      else if 271 \<le> doy \<and> doy \<le> 360 then Season 4
      else NaN)"

text \<open>
  The sibling function of the seasonal analysis scripts
  (seasonal\_analysis\_1, seasonal\_clustering\_step2):
  \<^verbatim>\<open>
  def get_meteorological_season(day_of_year):
      if day_of_year >= 335 or day_of_year <= 59: return 0
      elif 60 <= day_of_year <= 151:  return 1
      elif 152 <= day_of_year <= 243: return 2
      elif 244 <= day_of_year <= 334: return 3
      else: return -1  # Error case
  \<close>
\<close>

definition get_meteorological_season :: "int \<Rightarrow> int" where
  "get_meteorological_season day_of_year =
     (if day_of_year \<ge> 335 \<or> day_of_year \<le> 59 then 0
      else if 60 \<le> day_of_year \<and> day_of_year \<le> 151 then 1
      else if 152 \<le> day_of_year \<and> day_of_year \<le> 243 then 2
      else if 244 \<le> day_of_year \<and> day_of_year \<le> 334 then 3
      else -1)"

section \<open>Supernode features and the retention filter (create\_cpv)\<close>

text \<open>
  A component is the group of rows of the node table that carry one \<open>cp\<close> label
  (\<open>partition_nodes('cp', ...)\<close>); a group of a partition is never empty.
  \<^verbatim>\<open>
  cpv['g_ids'] = gv['g_id'].apply(set)
  cpv['n_unique_g_ids'] = cpv['g_ids'].apply(len)
  cpv['dt'] = cpv['time_amax'] - cpv['time_amin']
  cpv['timespan'] = cpv.dt.dt.days + 1
  # Filter out small heatwaves (shorter than 3 days or fewer than b grid cells)
  min_duration = pd.Timedelta(days=1)
  cpv["keep"] = np.where((cpv.dt > min_duration) & (cpv.n_unique_g_ids > b), True, False)
  cpv = cpv[cpv.keep].drop(columns=['keep'])
  \<close>
  \<open>dt\<close> is counted in days.
\<close>

definition time_amin :: "EventRecord list \<Rightarrow> int" where
  "time_amin c = Min (set (map itime c))"

definition time_amax :: "EventRecord list \<Rightarrow> int" where
  "time_amax c = Max (set (map itime c))"

definition g_ids :: "EventRecord list \<Rightarrow> nat set" where
  "g_ids c = set (map g_id c)"

definition n_unique_g_ids :: "EventRecord list \<Rightarrow> nat" where
  "n_unique_g_ids c = card (g_ids c)"

definition dt :: "EventRecord list \<Rightarrow> int" where
  "dt c = time_amax c - time_amin c"

definition timespan :: "EventRecord list \<Rightarrow> int" where
  "timespan c = dt c + 1"

definition min_duration :: int where
  "min_duration = 1"

definition keep :: "nat \<Rightarrow> EventRecord list \<Rightarrow> bool" where
  "keep b c \<longleftrightarrow> dt c > min_duration \<and> n_unique_g_ids c > b"

section \<open>Thresholds and extreme events (Heatwave\_Detection)\<close>

subsection \<open>Library operations on tables\<close>

text \<open>
  \<open>np.arange(a, b)\<close> is the list of the integers from \<open>a\<close> to \<open>b - 1\<close>;
  \<open>xs[i:j]\<close> is a slice.
\<close>

definition np_arange :: "int \<Rightarrow> int \<Rightarrow> int list" where
  "np_arange a b = [a..b - 1]"

definition slice :: "'a list \<Rightarrow> nat \<Rightarrow> nat \<Rightarrow> 'a list" where
  "slice xs i j = take (j - i) (drop i xs)"

text \<open>
  \<open>g.filter_by_values_v(feature, values)\<close> keeps the rows of the graph's own node table
  \<open>g.v\<close> whose feature is one of the values. It rebinds \<open>g.v\<close>; the table the graph
  was built from is not changed, and the scripts rely on that: they wrap the same table
  again in every pass of a loop (\<open>g = dg.DeepGraph(cpv_t)\<close> in the threshold loop) and
  read the filtered table back as \<open>g.v\<close>.
\<close>

definition filter_by_values_v :: "('r \<Rightarrow> int) \<Rightarrow> int list \<Rightarrow> 'r list \<Rightarrow> 'r list" where
  "filter_by_values_v feature vals v = filter (\<lambda>r. feature r \<in> set vals) v"

text \<open>
  \<open>g.partition_nodes(features, return_gv=True)\<close> groups the rows by the value of the
  features: one group per value that occurs, holding the rows with that value. (pandas
  lists the groups by sorted key; the model lists them by first occurrence, and no
  property below depends on the order of the groups.)
\<close>

definition partition_nodes :: "('r \<Rightarrow> 'k) \<Rightarrow> 'r list \<Rightarrow> ('k \<times> 'r list) list" where
  "partition_nodes key v = map (\<lambda>k. (k, filter (\<lambda>r. key r = k) v)) (remdups (map key v))"

text \<open>
  \<open>np.percentile(a, q)\<close> with the default linear interpolation: in the sorted sample of
  size \<open>n\<close> the value at the virtual index \<open>q/100 * (n - 1)\<close>, interpolated between its
  two neighbours. The groups of a partition are never empty, so the empty sample is not
  reached by the pipeline; the model gives it an error value.
\<close>

definition percentile_value :: "real list \<Rightarrow> real \<Rightarrow> real" where
  "percentile_value a q =
     (let s = sort a;
          n = length a;
          virtual_index = q / 100 * real (n - 1);
          previous = nat \<lfloor>virtual_index\<rfloor>;
          next = min (previous + 1) (n - 1);
          gamma = virtual_index - real previous
      in s ! previous + gamma * (s ! next - s ! previous))"

definition np_percentile :: "real list \<Rightarrow> real \<Rightarrow> py_error + real" where
  "np_percentile a q = (if a = [] then Inl ValueError else Inr (percentile_value a q))"

text \<open>
  The threshold loop hands \<open>np.percentile\<close> a list of lists, one list of temperatures
  per day of the window (\<open>tmp_p['t2m'].apply(list)\<close> over the column of lists of
  \<open>cpv_t\<close>). NumPy turns it into a two-dimensional array and takes the percentile of
  all its entries when the lists have one length, and refuses a ragged list of lists.
\<close>

definition homogeneous :: "'a list list \<Rightarrow> bool" where
  "homogeneous xss = list_all (\<lambda>xs. length xs = length (hd xss)) xss"

definition np_percentile_nested :: "real list list \<Rightarrow> real \<Rightarrow> py_error + real" where
  "np_percentile_nested xss q =
     (if homogeneous xss then np_percentile (concat xss) q else Inl ValueError)"

text \<open>A loop whose passes may raise stops at the first error.\<close>

fun sequence :: "('e + 'a) list \<Rightarrow> 'e + 'a list" where
  "sequence [] = Inr []"
| "sequence (r # rs) =
     (case r of Inl e \<Rightarrow> Inl e
      | Inr v \<Rightarrow> (case sequence rs of Inl e \<Rightarrow> Inl e | Inr vs \<Rightarrow> Inr (v # vs)))"

subsection \<open>The threshold loop\<close>

text \<open>
  \<^verbatim>\<open>
  cpv_t, gv_t = g_t.partition_nodes(['x', 'y', 'ytime'], return_gv=True)
  cpv_t['t2m'] = gv_t['t2m'].apply(list)

  tmp2 = pd.DataFrame(columns=['x', 'y', 'ytime', 'thresh'])
  time_window = np.concatenate((np.arange(350, 366), np.arange(1, 366), np.arange(1, 16)))
  for i in range(366):
      g = dg.DeepGraph(cpv_t)
      g.filter_by_values_v('ytime', time_window[i:i+31])
      tmp, tmp_p = g.partition_nodes(['x', 'y'], return_gv=True)
      tmp['t2m'] = tmp_p['t2m'].apply(list)
      tmp['thresh'] = tmp['t2m'].apply(lambda x: np.percentile(x, 99))
      tmp['ytime'] = i + 1
      tmp2 = pd.concat([tmp2, tmp])
  \<close>
  A row of \<open>cpv_t\<close> is a key \<open>(x, y, ytime)\<close> with the list of the temperatures of
  that cell on that day of year, one per year; a row of \<open>tmp2\<close> is a key
  \<open>(x, y, ytime)\<close> with its threshold.
\<close>

type_synonym day_group = "(int \<times> int \<times> int) \<times> real list"

type_synonym thresh_row = "(int \<times> int \<times> int) \<times> real"

definition group_cell :: "day_group \<Rightarrow> int \<times> int" where
  "group_cell g = (fst (fst g), fst (snd (fst g)))"

definition group_ytime :: "day_group \<Rightarrow> int" where
  "group_ytime g = snd (snd (fst g))"

definition cpv_t_of :: "DailyRecord list \<Rightarrow> day_group list" where
  "cpv_t_of v =
     map (\<lambda>(k, rows). (k, map t2m rows)) (partition_nodes (\<lambda>r. (x r, y r, ytime r)) v)"

definition time_window :: "int list" where
  "time_window = np_arange 350 366 @ np_arange 1 366 @ np_arange 1 16"

definition window_days :: "nat \<Rightarrow> int list" where
  "window_days i = slice time_window i (i + 31)"

definition window_thresholds :: "day_group list \<Rightarrow> nat \<Rightarrow> py_error + thresh_row list" where
  "window_thresholds cpv_t i =
     (let g = filter_by_values_v group_ytime (window_days i) cpv_t;
          tmp = partition_nodes group_cell g
      in sequence (map (\<lambda>(c, rows).
            case np_percentile_nested (map snd rows) 99 of
              Inl e \<Rightarrow> Inl e
            | Inr th \<Rightarrow> Inr ((fst c, snd c, int i + 1), th)) tmp))"

definition thresholds :: "day_group list \<Rightarrow> py_error + thresh_row list" where
  "thresholds cpv_t =
     (case sequence (map (window_thresholds cpv_t) [0..<366]) of
        Inl e \<Rightarrow> Inl e
      | Inr tmps \<Rightarrow> Inr (concat tmps))"

text \<open>
  \<open>pd.merge(vt, tmp2, on=["ytime", "x", "y"])\<close>: the inner join of the daily table with
  the thresholds; a daily row without a threshold row of its key is dropped.
\<close>

definition merge :: "DailyRecord list \<Rightarrow> thresh_row list \<Rightarrow> (DailyRecord \<times> real) list" where
  "merge vt tmp2 =
     concat (map (\<lambda>r. map (\<lambda>(k, th). (r, th))
                         (filter (\<lambda>(k, th). k = (x r, y r, ytime r)) tmp2)) vt)"

text \<open>
  The function \<open>calculate_thresholds(data)\<close> of the first version of the script
  partitions the daily table as it is.
\<close>

definition calculate_thresholds :: "DailyRecord list \<Rightarrow> py_error + (DailyRecord \<times> real) list" where
  "calculate_thresholds data =
     (case thresholds (cpv_t_of data) of
        Inl e \<Rightarrow> Inl e
      | Inr ths \<Rightarrow> Inr (merge data ths))"

text \<open>
  The second version of the script first takes the leap day out of the graph \<open>g_t\<close>
  that the thresholds are computed from, and then merges the thresholds into \<open>vt\<close>:
  \<^verbatim>\<open>
  # Remove 366th day (leap years)
  g_t = dg.DeepGraph(vt)
  g_t.filter_by_values_v('ytime', np.arange(366))
  print("Leap day removed.")
  cpv_t, gv_t = g_t.partition_nodes(['x', 'y', 'ytime'], return_gv=True)
  ...
  result = pd.merge(vt, tmp2, on=["ytime", "x", 'y']).drop(columns=['n_nodes'])
  \<close>
\<close>

definition result :: "DailyRecord list \<Rightarrow> py_error + (DailyRecord \<times> real) list" where
  "result vt =
     (let g_t = filter_by_values_v ytime (np_arange 0 366) vt;
          cpv_t = cpv_t_of g_t
      in case thresholds cpv_t of
           Inl e \<Rightarrow> Inl e
         | Inr tmp2 \<Rightarrow> Inr (merge vt tmp2))"

text \<open>
  \<^verbatim>\<open>
  result["keep"] = np.where(result["t2m"] >= result["thresh"], True, False)
  extr = result.loc[result['keep']].drop(columns=['keep'])
  \<close>
\<close>

definition detect_extreme_events :: "(DailyRecord \<times> real) list \<Rightarrow> (DailyRecord \<times> real) list" where
  "detect_extreme_events data = filter (\<lambda>(r, thresh). t2m r \<ge> thresh) data"

definition extr :: "DailyRecord list \<Rightarrow> py_error + (DailyRecord \<times> real) list" where
  "extr vt = (case result vt of Inl e \<Rightarrow> Inl e | Inr res \<Rightarrow> Inr (detect_extreme_events res))"

text \<open>
  The temperatures that the threshold of cell \<open>(cx, cy)\<close> in pass \<open>i\<close> is taken from:
  those of the rows of \<open>cpv_t\<close> of that cell whose day of year is in the window.
\<close>

definition pool :: "day_group list \<Rightarrow> int \<Rightarrow> int \<Rightarrow> nat \<Rightarrow> real list list" where
  "pool cpv_t cx cy i =
     map snd (filter (\<lambda>g. group_cell g = (cx, cy))
                (filter_by_values_v group_ytime (window_days i) cpv_t))"

text \<open>
  The rows that pass \<open>i\<close> of the loop appends to \<open>tmp2\<close> when no percentile fails.
\<close>

definition window_rows :: "day_group list \<Rightarrow> nat \<Rightarrow> thresh_row list" where
  "window_rows cpv_t i =
     map (\<lambda>(c, rows). ((fst c, snd c, int i + 1), percentile_value (concat (map snd rows)) 99))
       (partition_nodes group_cell
          (filter_by_values_v group_ytime (window_days i) cpv_t))"

text \<open>
  A regular table: every cell has the same number \<open>n\<close> of temperatures on every day of
  year from 1 to 365 that it has any (one a year over \<open>n\<close> years).
\<close>

definition regular :: "day_group list \<Rightarrow> nat \<Rightarrow> bool" where
  "regular cpv_t n \<longleftrightarrow>
     0 < n \<and> list_all (\<lambda>g. group_ytime g \<in> set time_window \<longrightarrow> length (snd g) = n) cpv_t"

section \<open>The graph of extreme events (con\_sep, create\_cpv)\<close>

subsection \<open>Connectors and selectors\<close>

text \<open>
  \<^verbatim>\<open>
  def grid_2d_dx(x_s, x_t): return x_t - x_s
  def grid_2d_dy(y_s, y_t): return y_t - y_s

  def s_grid_2d_dx(dx, sources, targets):
      dxa = np.abs(dx)
      sources = sources[dxa <= 1]
      targets = targets[dxa <= 1]
      return sources, targets
  \<close>
  (and likewise \<open>s_grid_2d_dy\<close>). \<open>sources\<close> and \<open>targets\<close> are the arrays of the
  positions of the two nodes of each candidate pair, \<open>dx\<close> the array of their distances;
  \<open>a[flags]\<close> keeps the entries of \<open>a\<close> whose flag is true.
\<close>

definition grid_2d_dx :: "int \<Rightarrow> int \<Rightarrow> int" where
  "grid_2d_dx x_s x_t = x_t - x_s"

definition grid_2d_dy :: "int \<Rightarrow> int \<Rightarrow> int" where
  "grid_2d_dy y_s y_t = y_t - y_s"

definition boolean_index :: "'a list \<Rightarrow> bool list \<Rightarrow> 'a list" where
  "boolean_index xs flags = map fst (filter snd (zip xs flags))"

definition s_grid_2d_dx :: "int list \<Rightarrow> nat list \<Rightarrow> nat list \<Rightarrow> nat list \<times> nat list" where
  "s_grid_2d_dx dx sources targets =
     (let dxa = map abs dx
      in (boolean_index sources (map (\<lambda>d. d \<le> 1) dxa),
          boolean_index targets (map (\<lambda>d. d \<le> 1) dxa)))"

definition s_grid_2d_dy :: "int list \<Rightarrow> nat list \<Rightarrow> nat list \<Rightarrow> nat list \<times> nat list" where
  "s_grid_2d_dy dy sources targets =
     (let dya = map abs dy
      in (boolean_index sources (map (\<lambda>d. d \<le> 1) dya),
          boolean_index targets (map (\<lambda>d. d \<le> 1) dya)))"

text \<open>
  The functions are handed to the DeepGraph library, which is not part of the
  repository, and the library takes more from them than their values. It reads the
  features a connector needs from the names of its parameters (\<open>x_s\<close>, \<open>x_t\<close>: the
  column \<open>x\<close> of the source and of the target node), the relations a selector needs
  from the names of its parameters (\<open>dx\<close>; \<open>sources\<close> and \<open>targets\<close> are the pairs),
  and the name of the relation a connector computes from its return statement, which
  has to return a variable: the name of the variable is the name of the relation.
  \<open>grid_2d_dx\<close> and \<open>grid_2d_dy\<close> return the expressions \<open>x_t - x_s\<close> and
  \<open>y_t - y_s\<close>, which name no relation, so a connector is modelled with the name of
  its relation as an option: \<open>None\<close> for these two.
\<close>

record connector =
  c_output :: "string option"
  c_feature :: "EventRecord \<Rightarrow> int"
  c_fct :: "int \<Rightarrow> int \<Rightarrow> int"

record selector =
  s_input :: string
  s_fct :: "int list \<Rightarrow> nat list \<Rightarrow> nat list \<Rightarrow> nat list \<times> nat list"

definition connector_grid_2d_dx :: connector where
  "connector_grid_2d_dx = \<lparr>c_output = None, c_feature = x, c_fct = grid_2d_dx\<rparr>"

definition connector_grid_2d_dy :: connector where
  "connector_grid_2d_dy = \<lparr>c_output = None, c_feature = y, c_fct = grid_2d_dy\<rparr>"

definition selector_grid_2d_dx :: selector where
  "selector_grid_2d_dx = \<lparr>s_input = ''dx'', s_fct = s_grid_2d_dx\<rparr>"

definition selector_grid_2d_dy :: selector where
  "selector_grid_2d_dy = \<lparr>s_input = ''dy'', s_fct = s_grid_2d_dy\<rparr>"

subsection \<open>Edges\<close>

text \<open>
  \<^verbatim>\<open>
  extr_data.sort_values('time', inplace=True)
  g = dg.DeepGraph(extr_data)
  # Create edges based on neighboring grids in a 3D dataset
  g.create_edges_ft(
      ft_feature=('itime', 1),
      connectors=[cs.grid_2d_dx, cs.grid_2d_dy],
      selectors=[cs.s_grid_2d_dx, cs.s_grid_2d_dy],
      r_dtype_dic={'ft_r': np.bool, 'dx': np.int8, 'dy': np.int8},
      max_pairs=1e7)
  g.e.rename(columns={'ft_r': 'dt'}, inplace=True)
  \<close>
  \<open>create_edges_ft\<close> is the fast-track edge creation of the DeepGraph library; the
  model follows what the library documents. Before it looks at a node, the library
  sets up the connectors and selectors: it raises ValueError when a connector names no
  relation, and when a selector or \<open>r_dtype_dic\<close> asks for a relation that is neither
  the fast-track distance \<open>ft_r\<close> nor the relation of a connector.

  Else, on a node table sorted by the fast-track feature, it forms the pairs \<open>(s, t)\<close>
  of node positions, \<open>s\<close> before \<open>t\<close>, whose distance \<open>ft_r = itime_t - itime_s\<close> is
  at most the maximum given with the feature, here 1. The selectors are applied in
  their order; for each, the connector of the relation it asks for computes the
  relation of the pairs at hand, and the selector narrows the pairs. What is left is
  the edge table. \<open>r_dtype_dic\<close> gives the types in which the relations of the edges
  are stored, and \<open>max_pairs\<close> only bounds how many pairs are handled at a time.
  \<open>itime\<close> is an unsigned 16-bit column in the code, which a daily series of less than
  179 years does not exhaust; it is an integer here.

  \<open>sort_values\<close> orders the rows by \<open>time\<close>, of which \<open>itime\<close> is the day index.
\<close>

definition sort_values_time :: "EventRecord list \<Rightarrow> EventRecord list" where
  "sort_values_time extr_data = sort_key itime extr_data"

definition ft_pairs :: "int \<Rightarrow> EventRecord list \<Rightarrow> (nat \<times> nat) list" where
  "ft_pairs ftt v =
     concat (map (\<lambda>s. map (\<lambda>t. (s, t))
                          (filter (\<lambda>t. itime (v ! t) - itime (v ! s) \<le> ftt) [Suc s..<length v]))
                 [0..<length v])"

definition output_rs :: "connector list \<Rightarrow> string list" where
  "output_rs connectors = ''ft_r'' # List.map_filter c_output connectors"

fun select_edges ::
    "connector list \<Rightarrow> EventRecord list \<Rightarrow> selector list \<Rightarrow> nat list \<Rightarrow> nat list
       \<Rightarrow> nat list \<times> nat list" where
  "select_edges connectors v [] sources targets = (sources, targets)"
| "select_edges connectors v (sel # selectors) sources targets =
     (case find (\<lambda>c. c_output c = Some (s_input sel)) connectors of
        None \<Rightarrow> select_edges connectors v selectors sources targets
      | Some c \<Rightarrow>
          (let r = map2 (\<lambda>s t. c_fct c (c_feature c (v ! s)) (c_feature c (v ! t)))
                        sources targets;
               (sources, targets) = s_fct sel r sources targets
           in select_edges connectors v selectors sources targets))"

definition create_edges_ft ::
    "int \<Rightarrow> connector list \<Rightarrow> selector list \<Rightarrow> string list \<Rightarrow> EventRecord list
       \<Rightarrow> py_error + (nat \<times> nat) list" where
  "create_edges_ft ftt connectors selectors r_dtype_dic v =
     (if list_ex (\<lambda>c. c_output c = None) connectors then Inl ValueError
      else if list_ex (\<lambda>r. r \<notin> set (output_rs connectors)) (map s_input selectors @ r_dtype_dic)
      then Inl ValueError
      else let pairs = ft_pairs ftt v;
               (sources, targets) = select_edges connectors v selectors
                                      (map fst pairs) (map snd pairs)
           in Inr (zip sources targets))"

subsection \<open>Component labels\<close>

text \<open>
  \<^verbatim>\<open>
  # Consolidate singular components under label 0
  g.append_cp(consolidate_singles=True)
  \<close>
  \<open>append_cp\<close> is library code as well: it labels every node with the connected
  component of the edge table it lies in, and with \<open>consolidate_singles\<close> gives all the
  components of a single node the label 0. The model computes the components by merging
  labels edge by edge, in the order of the edge table: every node starts with its own
  position as label, and an edge \<open>(s, t)\<close> gives the label of \<open>s\<close> to all nodes that
  carry the label of \<open>t\<close>. The edges of an edge table join positions of the node table;
  an edge with a position outside the table changes nothing. The library numbers the
  components of more than one node by decreasing size; the model numbers them by a node
  of theirs, which leaves the partition as it is.
\<close>

definition union_cp :: "nat \<times> nat \<Rightarrow> nat list \<Rightarrow> nat list" where
  "union_cp e labels =
     (let s = fst e; t = snd e
      in if s < length labels \<and> t < length labels
         then map (\<lambda>l. if l = labels ! t then labels ! s else l) labels
         else labels)"

definition connected_components :: "nat \<Rightarrow> (nat \<times> nat) list \<Rightarrow> nat list" where
  "connected_components n e = fold union_cp e [0..<n]"

definition append_cp :: "nat \<Rightarrow> (nat \<times> nat) list \<Rightarrow> nat list" where
  "append_cp n e =
     (let labels = connected_components n e
      in map (\<lambda>l. if count_list labels l = 1 then 0 else l + 1) labels)"

text \<open>
  Two nodes are linked by an edge table when a path of its edges, read in either
  direction, joins them.
\<close>

definition linked :: "(nat \<times> nat) list \<Rightarrow> (nat \<times> nat) set" where
  "linked e = (set e \<union> (set e)\<inverse>)\<^sup>*"

subsection \<open>Heatwaves\<close>

text \<open>
  \<^verbatim>\<open>
  cpv, gv = g.partition_nodes('cp', feature_funcs, return_gv=True)
  ...
  cpv["keep"] = np.where((cpv.dt > min_duration) & (cpv.n_unique_g_ids > b), True, False)
  cpv = cpv[cpv.keep].drop(columns=['keep'])
  \<close>
  \<open>gv\<close> groups the rows of the node table by their component label \<open>cp\<close>; a
  component is listed with its label and its rows, from which the features of the
  supernode table \<open>cpv\<close> are taken. \<open>cpv[cpv.keep]\<close> are the components that pass the
  filter.
\<close>

definition gv :: "nat list \<Rightarrow> EventRecord list \<Rightarrow> (nat \<times> EventRecord list) list" where
  "gv cp v = map (\<lambda>(l, rows). (l, map snd rows)) (partition_nodes fst (zip cp v))"

definition cpv_keep ::
    "nat \<Rightarrow> (nat \<times> EventRecord list) list \<Rightarrow> (nat \<times> EventRecord list) list" where
  "cpv_keep b cpv = filter (\<lambda>(l, c). keep b c) cpv"

text \<open>
  \<open>create_cpv(extr_data, b)\<close>: sort, create the edges, label the components, partition
  the nodes by component and keep the components that pass the filter. An error of the
  edge creation ends the function.
\<close>

definition create_cpv ::
    "EventRecord list \<Rightarrow> nat \<Rightarrow> py_error + (nat \<times> EventRecord list) list" where
  "create_cpv extr_data b =
     (let v = sort_values_time extr_data
      in case create_edges_ft 1 [connector_grid_2d_dx, connector_grid_2d_dy]
                [selector_grid_2d_dx, selector_grid_2d_dy] [''ft_r'', ''dx'', ''dy''] v of
           Inl err \<Rightarrow> Inl err
         | Inr e \<Rightarrow> Inr (cpv_keep b (gv (append_cp (length v) e) v)))"

section \<open>Sub-clustering of a family (clustering\_step2)\<close>

subsection \<open>Overlap of two heatwaves (con\_sep)\<close>

text \<open>
  \<^verbatim>\<open>
  def cp_node_intersection(g_ids_s, g_ids_t):
      intsec = np.zeros(len(g_ids_s), dtype=object)
      intsec_card = np.zeros(len(g_ids_s), dtype=int)
      for i in range(len(g_ids_s)):
          intsec[i] = g_ids_s[i].intersection(g_ids_t[i])
          intsec_card[i] = len(intsec[i])
      return intsec_card

  def cp_intersection_strength(n_unique_g_ids_s, n_unique_g_ids_t, intsec_card):
      min_card = np.minimum(n_unique_g_ids_s, n_unique_g_ids_t).astype(np.float64)
      return intsec_card / min_card
  \<close>
  The arguments are arrays with one entry per pair of heatwaves. NumPy's division by a
  zero \<open>min_card\<close> raises nothing and gives a non-finite number, which is \<open>None\<close>
  here; a heatwave has at least one grid cell, so this does not arise in the pipeline.

  \<open>cp_node_intersection\<close> returns the variable \<open>intsec_card\<close>, which is the name of
  its relation. \<open>cp_intersection_strength\<close> returns the expression
  \<open>intsec_card / min_card\<close>, which names no relation.
\<close>

definition cp_node_intersection :: "nat set list \<Rightarrow> nat set list \<Rightarrow> nat list" where
  "cp_node_intersection g_ids_s g_ids_t = map2 (\<lambda>s t. card (s \<inter> t)) g_ids_s g_ids_t"

definition cp_intersection_strength :: "nat list \<Rightarrow> nat list \<Rightarrow> nat list \<Rightarrow> real option list" where
  "cp_intersection_strength n_unique_g_ids_s n_unique_g_ids_t intsec_card =
     map (\<lambda>((n_s, n_t), c).
            let min_card = real (min n_s n_t)
            in if min_card = 0 then None else Some (real c / min_card))
         (zip (zip n_unique_g_ids_s n_unique_g_ids_t) intsec_card)"



text \<open>
  \<^verbatim>\<open>
  cpg.create_edges(connectors=[cs.cp_node_intersection, cs.cp_intersection_strength],
                   no_transfer_rs=['intsec_card'], logfile='create_cpe', step_size=1e7)
  dv = 1 - cpg.e.intsec_strength.values
  \<close>
  \<open>create_edges\<close> sets up its connectors as \<open>create_edges_ft\<close> does: it raises
  ValueError when a connector names no relation, or when the relation
  \<open>intsec_card\<close> that \<open>cp_intersection_strength\<close> asks for is not the relation of a
  connector. Else, without selectors, it keeps every pair \<open>(s, t)\<close> of rows of the
  supernode table with \<open>s\<close> before \<open>t\<close>, row by row, and the edge table has one column
  for each relation that \<open>no_transfer_rs\<close> does not list; a column over all the pairs is
  a condensed matrix over the heatwaves. A heatwave is given by its rows, from which
  \<open>g_ids\<close> and \<open>n_unique_g_ids\<close> are taken as in \<open>create_cpv\<close>.

  The model is given the two names, so that it says what the call does for connectors
  that name their relations too; the script calls it with the names of the two
  connectors of \<open>con_sep\<close>. \<open>cpg.e.intsec_strength\<close> reads the column of that name
  from the edge table; pandas raises AttributeError when there is none.
\<close>

definition create_edges_pairs :: "nat \<Rightarrow> (nat \<times> nat) list" where
  "create_edges_pairs m = concat (map (\<lambda>s. map (Pair s) [Suc s..<m]) [0..<m])"

definition intsec_card_values :: "EventRecord list list \<Rightarrow> nat list" where
  "intsec_card_values cpv =
     (let pairs = create_edges_pairs (length cpv);
          src = map (\<lambda>p. cpv ! fst p) pairs;
          tgt = map (\<lambda>p. cpv ! snd p) pairs
      in cp_node_intersection (map g_ids src) (map g_ids tgt))"

definition intsec_strength_values :: "EventRecord list list \<Rightarrow> real option list" where
  "intsec_strength_values cpv =
     (let pairs = create_edges_pairs (length cpv);
          src = map (\<lambda>p. cpv ! fst p) pairs;
          tgt = map (\<lambda>p. cpv ! snd p) pairs
      in cp_intersection_strength (map n_unique_g_ids src) (map n_unique_g_ids tgt)
           (intsec_card_values cpv))"

type_synonym edge_table = "(string \<times> real option list) list"

definition create_edges ::
    "string option \<Rightarrow> string option \<Rightarrow> string list \<Rightarrow> EventRecord list list
       \<Rightarrow> py_error + edge_table" where
  "create_edges output_card output_strength no_transfer_rs cpv =
     (case (output_card, output_strength) of
        (Some r_card, Some r_strength) \<Rightarrow>
          if r_card \<noteq> ''intsec_card'' then Inl ValueError
          else Inr (filter (\<lambda>(r, col). r \<notin> set no_transfer_rs)
                      [(r_card, map (\<lambda>c. Some (real c)) (intsec_card_values cpv)),
                       (r_strength, intsec_strength_values cpv)])
      | _ \<Rightarrow> Inl ValueError)"

definition edge_column :: "edge_table \<Rightarrow> string \<Rightarrow> py_error + real option list" where
  "edge_column e r = (case map_of e r of None \<Rightarrow> Inl AttributeError | Some col \<Rightarrow> Inr col)"

subsection \<open>Average linkage and the cut into flat clusters\<close>

text \<open>
  \<^verbatim>\<open>
  lm = linkage(dv, method='average', metric='euclidean')
  cpv['F_upgma'] = fcluster(lm, no_clusters, criterion='maxclust')
  \<close>
  \<open>linkage\<close> and \<open>fcluster\<close> are functions of SciPy, which is not part of the
  repository; the model follows what SciPy documents.

  \<open>linkage\<close> takes a condensed distance matrix. It raises ValueError when the vector is
  empty, when its length is not the number \<open>n (n - 1) / 2\<close> of pairs of some number
  \<open>n\<close> of observations, or when an entry is not finite. Else it clusters the \<open>n\<close>
  observations bottom up: it starts from the clusters of one observation and merges, \<open>n - 1\<close>
  times, the two clusters at the least distance, the distance of two clusters being the
  mean of the distances between their members (UPGMA). The model keeps, for each merge,
  its height and the clusters that exist after it. Among pairs at the same distance the
  model merges the first in the order of the cluster list; SciPy does not document which
  it takes.
\<close>

definition num_obs_y :: "nat \<Rightarrow> nat option" where
  "num_obs_y len = find (\<lambda>n. n * (n - 1) div 2 = len) [2..<len + 2]"

definition condensed_index :: "nat \<Rightarrow> nat \<Rightarrow> nat \<Rightarrow> nat" where
  "condensed_index n i j = n * i - i * (i + 1) div 2 + (j - i - 1)"

definition pair_distance :: "real list \<Rightarrow> nat \<Rightarrow> nat \<Rightarrow> nat \<Rightarrow> real" where
  "pair_distance dm n i j = (if i = j then 0 else dm ! condensed_index n (min i j) (max i j))"

definition average_distance :: "real list \<Rightarrow> nat \<Rightarrow> nat list \<Rightarrow> nat list \<Rightarrow> real" where
  "average_distance dm n a b =
     (\<Sum>i\<leftarrow>a. \<Sum>j\<leftarrow>b. pair_distance dm n i j) / real (length a * length b)"

definition closest_pair ::
    "real list \<Rightarrow> nat \<Rightarrow> nat list list \<Rightarrow> (nat \<times> nat) option" where
  "closest_pair dm n clusters =
     (let pairs = create_edges_pairs (length clusters);
          d = (\<lambda>p. average_distance dm n (clusters ! fst p) (clusters ! snd p))
      in case pairs of [] \<Rightarrow> None
         | p # ps \<Rightarrow> Some (fold (\<lambda>q best. if d q < d best then q else best) ps p))"

fun agglomerate ::
    "real list \<Rightarrow> nat \<Rightarrow> nat \<Rightarrow> nat list list \<Rightarrow> (real \<times> nat list list) list" where
  "agglomerate dm n 0 clusters = []"
| "agglomerate dm n (Suc k) clusters =
     (case closest_pair dm n clusters of
        None \<Rightarrow> []
      | Some (p, q) \<Rightarrow>
          (let merged = clusters ! p @ clusters ! q;
               rest = map snd (filter (\<lambda>(i, c). i \<noteq> p \<and> i \<noteq> q)
                                 (zip [0..<length clusters] clusters));
               clusters' = rest @ [merged]
           in (average_distance dm n (clusters ! p) (clusters ! q), clusters')
              # agglomerate dm n k clusters'))"

type_synonym linkage_matrix = "nat \<times> (real \<times> nat list list) list"

definition linkage :: "real option list \<Rightarrow> py_error + linkage_matrix" where
  "linkage dv =
     (case num_obs_y (length dv) of
        None \<Rightarrow> Inl ValueError
      | Some n \<Rightarrow>
          if list_ex (\<lambda>d. d = None) dv then Inl ValueError
          else Inr (n, agglomerate (map the dv) n (n - 1) (map (\<lambda>i. [i]) [0..<n])))"

text \<open>
  \<open>fcluster(Z, t, criterion='maxclust')\<close> cuts the tree at the least height for which
  no more than \<open>t\<close> flat clusters are formed, and labels every observation with the
  number, from 1, of its flat cluster. It makes no check of \<open>t\<close> against the number of
  observations and raises nothing of its own. \<open>cut_tree n Z r\<close> are the clusters
  left by the merges of height \<open>r\<close> or less. When \<open>t\<close> is \<open>n\<close> or more no merge is
  needed and the observations stay apart; for \<open>t\<close> from 1 to \<open>n - 1\<close> the cut is at the
  height of merge number \<open>n - t\<close>; for \<open>t = 0\<close>, which no cut can meet, SciPy cuts at
  height 0.
\<close>

definition cut_tree :: "nat \<Rightarrow> (real \<times> nat list list) list \<Rightarrow> real \<Rightarrow> nat list list" where
  "cut_tree n Z r =
     (case filter (\<lambda>m. fst m \<le> r) Z of
        [] \<Rightarrow> map (\<lambda>i. [i]) [0..<n]
      | m # ms \<Rightarrow> snd (last (m # ms)))"

definition flat_clusters :: "linkage_matrix \<Rightarrow> nat \<Rightarrow> nat list list" where
  "flat_clusters lm t =
     (let n = fst lm; Z = snd lm
      in if t = 0 then cut_tree n Z 0
         else if n \<le> t \<or> Z = [] then map (\<lambda>i. [i]) [0..<n]
         else cut_tree n Z (fst (Z ! (min (n - t) (length Z) - 1))))"

definition fcluster :: "linkage_matrix \<Rightarrow> nat \<Rightarrow> nat list" where
  "fcluster lm t =
     (let cl = flat_clusters lm t
      in map (\<lambda>i. case find (\<lambda>(l, c). i \<in> set c) (zip [1..<length cl + 1] cl) of
                     Some (l, c) \<Rightarrow> l | None \<Rightarrow> 0) [0..<fst lm])"

subsection \<open>The labels of the sub-families\<close>

text \<open>
  \<^verbatim>\<open>
  # Relabel families by size
  f = cpv['F_upgma'].value_counts().index.values
  fdic = {j: i for i, j in enumerate(f)}
  cpv['F_upgma'] = cpv['F_upgma'].apply(lambda x: fdic[x])
  \<close>
  \<open>value_counts\<close> lists the labels by decreasing count; every label of the column is a
  key of \<open>fdic\<close>. The result of the step is the column \<open>F_upgma\<close>, one label per
  heatwave, or the error that ended it. \<open>sub_clustering\<close> is the step from the call of
  \<open>create_edges\<close> on, with the names of the relations of the two connectors;
  \<open>F_upgma\<close> is the step of the script, with the connectors of \<open>con_sep\<close>.
\<close>

definition value_counts_index :: "nat list \<Rightarrow> nat list" where
  "value_counts_index T = rev (sort_key (\<lambda>l. count_list T l) (rev (remdups T)))"

definition relabel_by_size :: "nat list \<Rightarrow> nat list" where
  "relabel_by_size T =
     (let f = value_counts_index T
      in map (\<lambda>l. the (map_of (zip f [0..<length f]) l)) T)"

definition sub_clustering ::
    "string option \<Rightarrow> string option \<Rightarrow> EventRecord list list \<Rightarrow> nat \<Rightarrow> py_error + nat list" where
  "sub_clustering output_card output_strength cpv no_clusters =
     (case create_edges output_card output_strength [''intsec_card''] cpv of
        Inl err \<Rightarrow> Inl err
      | Inr e \<Rightarrow>
          (case edge_column e ''intsec_strength'' of
             Inl err \<Rightarrow> Inl err
           | Inr intsec_strength \<Rightarrow>
               (let dv = map (map_option (\<lambda>s. 1 - s)) intsec_strength
                in case linkage dv of
                     Inl err \<Rightarrow> Inl err
                   | Inr lm \<Rightarrow> Inr (relabel_by_size (fcluster lm no_clusters)))))"


section \<open>Properties\<close>

subsection \<open>Magnitude\<close>

lemma calc_mag_nondegenerate:
  assumes "t2m_amax_perc25 data < t2m_amax_perc75 data"
  shows "calc_mag data =
           Inr (if row_t2m data > t2m_amax_perc25 data
                then (row_t2m data - t2m_amax_perc25 data) /
                     (t2m_amax_perc75 data - t2m_amax_perc25 data)
                else 0)"
  using assms by (simp add: calc_mag_def py_truediv_def)

text \<open>
  Claim C7. With \<open>p25 < p75\<close> the magnitude of a record of temperature \<open>v\<close> is
  \<open>(v - p25) / (p75 - p25)\<close> when \<open>v > p25\<close> and \<open>0\<close> when \<open>v \<le> p25\<close>; it is
  never negative.
\<close>

theorem calc_mag_value:
  assumes "t2m_amax_perc25 data < t2m_amax_perc75 data"
  shows "\<exists>m. calc_mag data = Inr m \<and> 0 \<le> m \<and>
           (row_t2m data > t2m_amax_perc25 data \<longrightarrow>
              m = (row_t2m data - t2m_amax_perc25 data) /
                  (t2m_amax_perc75 data - t2m_amax_perc25 data)) \<and>
           (row_t2m data \<le> t2m_amax_perc25 data \<longrightarrow> m = 0)"
proof (cases "row_t2m data > t2m_amax_perc25 data")
  case True
  with assms have "0 \<le> (row_t2m data - t2m_amax_perc25 data) /
                        (t2m_amax_perc75 data - t2m_amax_perc25 data)"
    by (intro divide_nonneg_pos) simp_all
  with True assms show ?thesis
    by (simp add: calc_mag_nondegenerate)
next
  case False
  with assms show ?thesis
    by (simp add: calc_mag_nondegenerate)
qed

theorem calc_mag_value_witness:
  "calc_mag \<lparr>row_t2m = 34, t2m_amax_perc25 = 30, t2m_amax_perc75 = 32\<rparr> = Inr 2 \<and>
   calc_mag \<lparr>row_t2m = 29, t2m_amax_perc25 = 30, t2m_amax_perc75 = 32\<rparr> = Inr 0"
proof -
  have a: "t2m_amax_perc25 \<lparr>row_t2m = 34, t2m_amax_perc25 = 30, t2m_amax_perc75 = 32\<rparr>
             < t2m_amax_perc75 \<lparr>row_t2m = 34, t2m_amax_perc25 = 30, t2m_amax_perc75 = 32\<rparr>"
    by simp
  have b: "t2m_amax_perc25 \<lparr>row_t2m = 29, t2m_amax_perc25 = 30, t2m_amax_perc75 = 32\<rparr>
             < t2m_amax_perc75 \<lparr>row_t2m = 29, t2m_amax_perc25 = 30, t2m_amax_perc75 = 32\<rparr>"
    by simp
  from calc_mag_value [OF a] calc_mag_value [OF b] show ?thesis
    by auto
qed

text \<open>
  Claim C3, as stated: when \<open>p75 = p25\<close> the magnitude of any record at the cell is 0
  and no division error arises. It fails for a record warmer than \<open>p25\<close>.
\<close>

theorem calc_mag_degenerate_counterexample:
  "calc_mag \<lparr>row_t2m = 31, t2m_amax_perc25 = 30, t2m_amax_perc75 = 30\<rparr>
     = Inl ZeroDivisionError"
  by (simp add: calc_mag_def py_truediv_def)

text \<open>
  Claim C3, amended. When \<open>p75 = p25\<close> the magnitude is 0 exactly for the records
  with \<open>v \<le> p25\<close>; for \<open>v > p25\<close> the computation divides by zero.
\<close>

theorem calc_mag_degenerate:
  assumes "t2m_amax_perc75 data = t2m_amax_perc25 data"
  shows "calc_mag data =
           (if row_t2m data \<le> t2m_amax_perc25 data then Inr 0 else Inl ZeroDivisionError)"
  using assms by (simp add: calc_mag_def py_truediv_def)

theorem calc_mag_degenerate_witness:
  "calc_mag \<lparr>row_t2m = 30, t2m_amax_perc25 = 30, t2m_amax_perc75 = 30\<rparr> = Inr 0 \<and>
   calc_mag \<lparr>row_t2m = 35, t2m_amax_perc25 = 30, t2m_amax_perc75 = 30\<rparr>
     = Inl ZeroDivisionError"
proof -
  have a: "t2m_amax_perc75 \<lparr>row_t2m = 30, t2m_amax_perc25 = 30, t2m_amax_perc75 = 30\<rparr>
             = t2m_amax_perc25 \<lparr>row_t2m = 30, t2m_amax_perc25 = 30, t2m_amax_perc75 = 30\<rparr>"
    by simp
  have b: "t2m_amax_perc75 \<lparr>row_t2m = 35, t2m_amax_perc25 = 30, t2m_amax_perc75 = 30\<rparr>
             = t2m_amax_perc25 \<lparr>row_t2m = 35, t2m_amax_perc25 = 30, t2m_amax_perc75 = 30\<rparr>"
    by simp
  from calc_mag_degenerate [OF a] calc_mag_degenerate [OF b] show ?thesis
    by simp
qed

subsection \<open>Seasons\<close>

lemma assign_season_upto_360:
  assumes "1 \<le> doy" and "doy \<le> 360"
  shows "assign_season doy \<in> {Season 1, Season 2, Season 3, Season 4}"
  using assms by (auto simp: assign_season_def)

lemma assign_season_after_360:
  assumes "360 < doy"
  shows "assign_season doy = NaN"
  using assms by (simp add: assign_season_def)

lemma get_meteorological_season_total:
  "get_meteorological_season day_of_year \<in> {0, 1, 2, 3}"
  by (auto simp: get_meteorological_season_def)

text \<open>
  Claim C9 says that every day of year in \<open>[1,366]\<close> gets one of the four season labels.
  \<open>assign_season\<close> leaves the days 361 to 366 without a season: on 31 December of a
  common year (day 365) it returns NaN.
\<close>

theorem assign_season_day_365:
  "assign_season 365 = NaN"
  by (simp add: assign_season_def)

subsection \<open>Retention of components\<close>

lemma keep_timespan:
  "keep b c \<longleftrightarrow> timespan c > 2 \<and> n_unique_g_ids c > b"
  by (auto simp: keep_def min_duration_def timespan_def)

text \<open>
  Claim C2, as stated: a component is retained iff its timespan exceeds 1 day and it has
  more than \<open>b\<close> grid cells. Two records in neighbouring cells on two consecutive days
  that carry one component label form a component of timespan 2 and with 2 grid cells;
  with \<open>b = 0\<close> it meets that condition, and the filter drops it.
\<close>

theorem cpv_keep_two_day_counterexample:
  "gv [1, 1]
      [\<lparr>x = 0, y = 0, ytime = 200, t2m = 40, itime = 5, g_id = 1, magnitude = 1\<rparr>,
       \<lparr>x = 1, y = 0, ytime = 201, t2m = 40, itime = 6, g_id = 2, magnitude = 1\<rparr>]
     = [(1, [\<lparr>x = 0, y = 0, ytime = 200, t2m = 40, itime = 5, g_id = 1, magnitude = 1\<rparr>,
             \<lparr>x = 1, y = 0, ytime = 201, t2m = 40, itime = 6, g_id = 2, magnitude = 1\<rparr>])] \<and>
   timespan [\<lparr>x = 0, y = 0, ytime = 200, t2m = 40, itime = 5, g_id = 1, magnitude = 1\<rparr>,
             \<lparr>x = 1, y = 0, ytime = 201, t2m = 40, itime = 6, g_id = 2, magnitude = 1\<rparr>] = 2 \<and>
   n_unique_g_ids
            [\<lparr>x = 0, y = 0, ytime = 200, t2m = 40, itime = 5, g_id = 1, magnitude = 1\<rparr>,
             \<lparr>x = 1, y = 0, ytime = 201, t2m = 40, itime = 6, g_id = 2, magnitude = 1\<rparr>] = 2 \<and>
   cpv_keep 0
     (gv [1, 1]
         [\<lparr>x = 0, y = 0, ytime = 200, t2m = 40, itime = 5, g_id = 1, magnitude = 1\<rparr>,
          \<lparr>x = 1, y = 0, ytime = 201, t2m = 40, itime = 6, g_id = 2, magnitude = 1\<rparr>]) = []"
  by code_simp

text \<open>
  Claim C2, amended. The filter of the supernode table retains a component iff its
  timespan exceeds 2 days (it covers at least 3 calendar days from its first to its
  last) and it has more than \<open>b\<close> grid cells.
\<close>

theorem cpv_keep_retains:
  "(l, c) \<in> set (cpv_keep b cpv) \<longleftrightarrow>
     (l, c) \<in> set cpv \<and> timespan c > 2 \<and> n_unique_g_ids c > b"
  by (auto simp: cpv_keep_def keep_timespan)

subsection \<open>Thresholds\<close>

lemma length_np_arange: "length (np_arange a b) = nat (b - a)"
  by (simp add: np_arange_def del: upto_rec_numeral)

lemma nth_np_arange: "a + int k < b \<Longrightarrow> np_arange a b ! k = a + int k"
  by (simp add: np_arange_def del: upto_rec_numeral)

lemma length_time_window: "length time_window = 396"
  by (simp add: time_window_def length_np_arange)

lemma day_mod_1: "0 \<le> (J::int) \<Longrightarrow> J < 16 \<Longrightarrow> (J + 349) mod 365 = J + 349"
  by (simp add: mod_pos_pos_trivial)

lemma day_mod_2: "16 \<le> (J::int) \<Longrightarrow> J < 381 \<Longrightarrow> (J + 349) mod 365 = J - 16"
proof -
  assume a: "16 \<le> J" "J < 381"
  have "(J + 349) mod 365 = ((J - 16) + 365) mod 365"
    by (simp add: algebra_simps)
  also have "\<dots> = (J - 16) mod 365"
    by (rule mod_add_self2)
  also from a have "\<dots> = J - 16"
    by (simp add: mod_pos_pos_trivial)
  finally show ?thesis .
qed

lemma day_mod_3: "381 \<le> (J::int) \<Longrightarrow> J < 396 \<Longrightarrow> (J + 349) mod 365 = J - 381"
proof -
  assume a: "381 \<le> J" "J < 396"
  have "(J + 349) mod 365 = ((J - 381) + 2 * 365) mod 365"
    by (simp add: algebra_simps)
  also have "\<dots> = (J - 381) mod 365"
    by (rule mod_mult_self1)
  also from a have "\<dots> = J - 381"
    by (simp add: mod_pos_pos_trivial)
  finally show ?thesis .
qed

lemma time_window_nth:
  assumes "j < 396"
  shows "time_window ! j = (int j + 349) mod 365 + 1"
proof -
  consider "j < 16" | "16 \<le> j" "j < 381" | "381 \<le> j"
    by linarith
  then show ?thesis
  proof cases
    case 1
    then have "time_window ! j = 350 + int j"
      by (simp add: time_window_def nth_append length_np_arange nth_np_arange)
    moreover from 1 have "(int j + 349) mod 365 = int j + 349"
      by (intro day_mod_1) simp_all
    ultimately show ?thesis by simp
  next
    case 2
    then have "time_window ! j = 1 + int (j - 16)"
      by (auto simp add: time_window_def nth_append length_np_arange nth_np_arange)
    moreover from 2 have "(int j + 349) mod 365 = int j - 16"
      by (intro day_mod_2) simp_all
    ultimately show ?thesis using 2 by (simp add: of_nat_diff)
  next
    case 3
    with assms have "time_window ! j = 1 + int (j - 16 - 365)"
      by (auto simp add: time_window_def nth_append length_np_arange nth_np_arange)
    moreover from 3 assms have "(int j + 349) mod 365 = int j - 381"
      by (intro day_mod_3) simp_all
    ultimately show ?thesis using 3 by (simp add: of_nat_diff)
  qed
qed

lemma window_days_map:
  assumes "i < 366"
  shows "window_days i = map (\<lambda>k. (int i + int k + 349) mod 365 + 1) [0..<31]"
proof (rule nth_equalityI)
  show "length (window_days i) = length (map (\<lambda>k. (int i + int k + 349) mod 365 + 1) [0..<31])"
    using assms by (simp add: window_days_def slice_def length_time_window)
next
  fix k
  assume "k < length (window_days i)"
  with assms have k: "k < 31"
    by (simp add: window_days_def slice_def length_time_window)
  with assms have "window_days i ! k = time_window ! (i + k)"
    by (simp add: window_days_def slice_def length_time_window)
  also from assms k have "\<dots> = (int (i + k) + 349) mod 365 + 1"
    by (intro time_window_nth) simp
  finally show "window_days i ! k = map (\<lambda>k. (int i + int k + 349) mod 365 + 1) [0..<31] ! k"
    using k by simp
qed


lemma window_days_first:
  "window_days 0 = [350, 351, 352, 353, 354, 355, 356, 357, 358, 359, 360, 361, 362, 363,
       364, 365, 1, 2, 3, 4, 5, 6, 7, 8, 9, 10, 11, 12, 13, 14, 15]"
proof -
  have h: "(0::nat) < 366" by simp
  show ?thesis
    unfolding window_days_map [OF h] by code_simp
qed

text \<open>
  Claim C4 says that the window of day \<open>d\<close> is centred on \<open>d\<close>: the days \<open>d - 15\<close> to
  \<open>d + 15\<close>. The slice \<open>time_window[i:i+31]\<close> of pass \<open>i = d - 1\<close> holds the days
  \<open>d - 16\<close> to \<open>d + 14\<close>, wrapped into \<open>1..365\<close>: the padding in front has 16 days
  (350 to 365) where 15 were needed.
\<close>

theorem threshold_window_days:
  assumes "1 \<le> d" and "d \<le> 366"
  shows "window_days (nat (d - 1)) = map (\<lambda>k. (d - 16 + int k - 1) mod 365 + 1) [0..<31]"
proof -
  from assms have i: "nat (d - 1) < 366" by simp
  have "(int (nat (d - 1)) + int k + 349) mod 365 = (d - 16 + int k - 1) mod 365" for k
  proof -
    from assms have "int (nat (d - 1)) + int k + 349 = (d - 16 + int k - 1) + 365"
      by simp
    then show ?thesis
      by (simp only: mod_add_self2)
  qed
  then show ?thesis
    unfolding window_days_map [OF i] by simp
qed

theorem threshold_window_days_witness:
  "window_days (nat (1 - 1)) = map (\<lambda>k. (1 - 16 + int k - 1) mod 365 + 1) [0..<31] \<and>
   window_days (nat (1 - 1)) =
     [350, 351, 352, 353, 354, 355, 356, 357, 358, 359, 360, 361, 362, 363,
      364, 365, 1, 2, 3, 4, 5, 6, 7, 8, 9, 10, 11, 12, 13, 14, 15]"
proof -
  have a: "(1::int) \<le> 1" and b: "(1::int) \<le> 366" by simp_all
  from threshold_window_days [OF a b] window_days_first show ?thesis
    by simp
qed

lemma window_days_subset: "set (window_days i) \<subseteq> set time_window"
proof -
  have "set (window_days i) \<subseteq> set (drop i time_window)"
    unfolding window_days_def slice_def by (rule set_take_subset)
  also have "\<dots> \<subseteq> set time_window"
    by (rule set_drop_subset)
  finally show ?thesis .
qed

lemma sequence_map:
  assumes "\<And>a. a \<in> set as \<Longrightarrow> g a = Inr (h a)"
  shows "sequence (map g as) = Inr (map h as)"
  using assms by (induction as) simp_all

lemma partition_nodes_mem:
  "(k, rows) \<in> set (partition_nodes key v) \<longleftrightarrow>
     k \<in> key ` set v \<and> rows = filter (\<lambda>r. key r = k) v"
  by (auto simp: partition_nodes_def)

lemma partition_nodes_nonempty:
  assumes "(k, rows) \<in> set (partition_nodes key v)"
  shows "rows \<noteq> []"
proof -
  from assms obtain r where "r \<in> set v" "key r = k" and rows: "rows = filter (\<lambda>r. key r = k) v"
    by (auto simp: partition_nodes_mem)
  then have "r \<in> set rows" by simp
  then show ?thesis by auto
qed

lemma partition_nodes_subset:
  assumes "(k, rows) \<in> set (partition_nodes key v)"
  shows "set rows \<subseteq> set v"
  using assms by (auto simp: partition_nodes_mem)

lemma homogeneous_same_length:
  assumes "\<And>xs. xs \<in> set xss \<Longrightarrow> length xs = n"
  shows "homogeneous xss"
proof (cases xss)
  case Nil
  then show ?thesis by (simp add: homogeneous_def)
next
  case (Cons a as)
  with assms show ?thesis
    by (simp add: homogeneous_def list_all_iff)
qed

lemma np_percentile_nested_regular:
  assumes "\<And>xs. xs \<in> set xss \<Longrightarrow> length xs = n" and "0 < n" and "xss \<noteq> []"
  shows "np_percentile_nested xss q = Inr (percentile_value (concat xss) q)"
proof -
  from assms(3) obtain a as where xss: "xss = a # as" by (cases xss) auto
  with assms(1) [of a] assms(2) have "a \<noteq> []" by auto
  with xss have "concat xss \<noteq> []" by simp
  with homogeneous_same_length [of xss n] assms(1) show ?thesis
    by (simp add: np_percentile_nested_def np_percentile_def)
qed

lemma window_thresholds_regular:
  assumes "regular cpv_t n"
  shows "window_thresholds cpv_t i = Inr (window_rows cpv_t i)"
proof -
  let ?g = "filter_by_values_v group_ytime (window_days i) cpv_t"
  let ?tmp = "partition_nodes group_cell ?g"
  have "(case np_percentile_nested (map snd rows) 99 of
           Inl e \<Rightarrow> Inl e
         | Inr th \<Rightarrow> Inr ((fst c, snd c, int i + 1), th))
        = Inr ((fst c, snd c, int i + 1), percentile_value (concat (map snd rows)) 99)"
    if "(c, rows) \<in> set ?tmp" for c rows
  proof -
    from that have ne: "rows \<noteq> []" by (rule partition_nodes_nonempty)
    from that have "set rows \<subseteq> set ?g" by (rule partition_nodes_subset)
    then have "\<And>g. g \<in> set rows \<Longrightarrow> g \<in> set cpv_t \<and> group_ytime g \<in> set time_window"
      using window_days_subset [of i] by (auto simp: filter_by_values_v_def)
    with assms have "\<And>xs. xs \<in> set (map snd rows) \<Longrightarrow> length xs = n"
      by (fastforce simp: regular_def list_all_iff)
    moreover from assms have "0 < n" by (simp add: regular_def)
    moreover from ne have "map snd rows \<noteq> []" by simp
    ultimately have "np_percentile_nested (map snd rows) 99
                       = Inr (percentile_value (concat (map snd rows)) 99)"
      by (rule np_percentile_nested_regular)
    then show ?thesis by simp
  qed
  then have "sequence (map (\<lambda>(c, rows).
            case np_percentile_nested (map snd rows) 99 of
              Inl e \<Rightarrow> Inl e
            | Inr th \<Rightarrow> Inr ((fst c, snd c, int i + 1), th)) ?tmp)
        = Inr (map (\<lambda>(c, rows). ((fst c, snd c, int i + 1), percentile_value (concat (map snd rows)) 99)) ?tmp)"
    by (intro sequence_map) auto
  then show ?thesis
    by (simp add: window_thresholds_def window_rows_def Let_def)
qed

lemma thresholds_regular:
  assumes "regular cpv_t n"
  shows "thresholds cpv_t = Inr (concat (map (window_rows cpv_t) [0..<366]))"
proof -
  have "sequence (map (window_thresholds cpv_t) [0..<366]) = Inr (map (window_rows cpv_t) [0..<366])"
    by (intro sequence_map window_thresholds_regular [OF assms])
  then show ?thesis by (simp add: thresholds_def)
qed

lemma window_rows_mem:
  "((cx, cy, d), th) \<in> set (window_rows cpv_t i) \<longleftrightarrow>
     d = int i + 1 \<and> pool cpv_t cx cy i \<noteq> [] \<and>
     th = percentile_value (concat (pool cpv_t cx cy i)) 99"
proof -
  let ?g = "filter_by_values_v group_ytime (window_days i) cpv_t"
  have p: "pool cpv_t cx cy i = map snd (filter (\<lambda>r. group_cell r = (cx, cy)) ?g)"
    by (simp add: pool_def)
  have ne: "pool cpv_t cx cy i \<noteq> [] \<longleftrightarrow> (cx, cy) \<in> group_cell ` set ?g"
    unfolding p by (force simp: filter_empty_conv image_iff)
  have "((cx, cy, d), th) \<in> set (window_rows cpv_t i) \<longleftrightarrow>
          (\<exists>c rows. (c, rows) \<in> set (partition_nodes group_cell ?g) \<and>
             (cx, cy, d) = (fst c, snd c, int i + 1) \<and>
             th = percentile_value (concat (map snd rows)) 99)"
    by (force simp: window_rows_def image_iff)
  also have "\<dots> \<longleftrightarrow> (\<exists>c. c \<in> group_cell ` set ?g \<and>
             (cx, cy, d) = (fst c, snd c, int i + 1) \<and>
             th = percentile_value (concat (map snd (filter (\<lambda>r. group_cell r = c) ?g))) 99)"
    by (simp add: partition_nodes_mem)
  also have "\<dots> \<longleftrightarrow> ((cx, cy) \<in> group_cell ` set ?g \<and> d = int i + 1 \<and>
             th = percentile_value (concat (pool cpv_t cx cy i)) 99)"
    (is "?L \<longleftrightarrow> ?R")
  proof
    assume ?L
    then obtain c where c: "c \<in> group_cell ` set ?g"
      and eq: "(cx, cy, d) = (fst c, snd c, int i + 1)"
      and th: "th = percentile_value (concat (map snd (filter (\<lambda>r. group_cell r = c) ?g))) 99"
      by blast
    from eq have "c = (cx, cy)" and "d = int i + 1"
      by (simp_all add: prod_eq_iff)
    with c th show ?R by (simp add: p)
  next
    assume ?R
    then show ?L
      by (intro exI [of _ "(cx, cy)"]) (simp add: p)
  qed
  finally have main: "((cx, cy, d), th) \<in> set (window_rows cpv_t i) \<longleftrightarrow>
      ((cx, cy) \<in> group_cell ` set ?g \<and> d = int i + 1 \<and>
             th = percentile_value (concat (pool cpv_t cx cy i)) 99)" .
  from main ne show ?thesis by blast
qed

lemma thresholds_rows_mem:
  "((cx, cy, d), th) \<in> set (concat (map (window_rows cpv_t) [0..<366])) \<longleftrightarrow>
     1 \<le> d \<and> d \<le> 366 \<and> pool cpv_t cx cy (nat (d - 1)) \<noteq> [] \<and>
     th = percentile_value (concat (pool cpv_t cx cy (nat (d - 1)))) 99"
proof
  assume "((cx, cy, d), th) \<in> set (concat (map (window_rows cpv_t) [0..<366]))"
  then obtain i where i: "i < 366" and "((cx, cy, d), th) \<in> set (window_rows cpv_t i)"
    by auto
  then have "d = int i + 1" and "pool cpv_t cx cy i \<noteq> []"
    and "th = percentile_value (concat (pool cpv_t cx cy i)) 99"
    by (simp_all add: window_rows_mem)
  with i show "1 \<le> d \<and> d \<le> 366 \<and> pool cpv_t cx cy (nat (d - 1)) \<noteq> [] \<and>
     th = percentile_value (concat (pool cpv_t cx cy (nat (d - 1)))) 99"
    by simp
next
  assume a: "1 \<le> d \<and> d \<le> 366 \<and> pool cpv_t cx cy (nat (d - 1)) \<noteq> [] \<and>
     th = percentile_value (concat (pool cpv_t cx cy (nat (d - 1)))) 99"
  then have "1 \<le> d" and "d \<le> 366" by simp_all
  then have "nat (d - 1) < 366" and "d = int (nat (d - 1)) + 1" by simp_all
  with a have "((cx, cy, d), th) \<in> set (window_rows cpv_t (nat (d - 1)))"
    by (subst window_rows_mem) simp
  with \<open>nat (d - 1) < 366\<close> show "((cx, cy, d), th) \<in> set (concat (map (window_rows cpv_t) [0..<366]))"
    by auto
qed

lemma merge_mem:
  "(r, th) \<in> set (merge vt tmp2) \<longleftrightarrow> r \<in> set vt \<and> ((x r, y r, ytime r), th) \<in> set tmp2"
  by (auto simp: merge_def)

lemma calculate_thresholds_regular:
  assumes "regular (cpv_t_of data) n"
  shows "calculate_thresholds data =
           Inr (merge data (concat (map (window_rows (cpv_t_of data)) [0..<366])))"
  by (simp add: calculate_thresholds_def thresholds_regular [OF assms])

lemma result_regular:
  assumes "regular (cpv_t_of (filter_by_values_v ytime (np_arange 0 366) vt)) n"
  shows "result vt =
           Inr (merge vt (concat (map (window_rows
                  (cpv_t_of (filter_by_values_v ytime (np_arange 0 366) vt))) [0..<366])))"
  by (simp add: result_def Let_def thresholds_regular [OF assms])

text \<open>
  Claim C6, amended. The threshold computation has no minimum sample count. On a regular
  table (every cell has the same number \<open>n\<close>, 1 or more, of temperatures on every day
  of year from 1 to 365 that it has any) it raises no error, and the cell and day of
  year \<open>d\<close> in \<open>[1,366]\<close> have a threshold exactly when their pool is not empty, the
  99th percentile of the pool whatever its size. A cell and day with an empty pool get
  no threshold row, and the merge drops their daily rows.
\<close>

theorem calculate_thresholds_any_pool_size:
  assumes "regular (cpv_t_of data) n"
  shows "\<exists>ths. calculate_thresholds data = Inr (merge data ths) \<and>
           (\<forall>cx cy d th. ((cx, cy, d), th) \<in> set ths \<longleftrightarrow>
              1 \<le> d \<and> d \<le> 366 \<and> pool (cpv_t_of data) cx cy (nat (d - 1)) \<noteq> [] \<and>
              th = percentile_value (concat (pool (cpv_t_of data) cx cy (nat (d - 1)))) 99)"
  using calculate_thresholds_regular [OF assms] thresholds_rows_mem [of _ _ _ _ "cpv_t_of data"]
  by blast

lemma cpv_t_of_single: "cpv_t_of [\<lparr>x = 0, y = 0, ytime = 1, t2m = 30\<rparr>] = [((0, 0, 1), [30])]"
  by code_simp

lemma regular_single: "regular [((0, 0, 1), [30])] 1"
  by code_simp

lemma pool_single_first: "pool [((0, 0, 1), [30])] 0 0 0 = [ [30] ]"
  by code_simp

lemma pool_single_last: "pool [((0, 0, 1), [30])] 0 0 365 = [ [30] ]"
  by code_simp

lemma percentile_value_single: "percentile_value [30] 99 = 30"
  by (simp add: percentile_value_def)

theorem calculate_thresholds_any_pool_size_witness:
  "\<exists>ths. calculate_thresholds [\<lparr>x = 0, y = 0, ytime = 1, t2m = 30\<rparr>]
            = Inr (merge [\<lparr>x = 0, y = 0, ytime = 1, t2m = 30\<rparr>] ths) \<and>
         ((0, 0, 1), 30) \<in> set ths"
proof -
  have r: "regular (cpv_t_of [\<lparr>x = 0, y = 0, ytime = 1, t2m = 30\<rparr>]) 1"
    unfolding cpv_t_of_single by (rule regular_single)
  from calculate_thresholds_any_pool_size [OF r] obtain ths
    where eq: "calculate_thresholds [\<lparr>x = 0, y = 0, ytime = 1, t2m = 30\<rparr>]
                 = Inr (merge [\<lparr>x = 0, y = 0, ytime = 1, t2m = 30\<rparr>] ths)"
      and mem: "\<And>cx cy d th. ((cx, cy, d), th) \<in> set ths \<longleftrightarrow>
              1 \<le> d \<and> d \<le> 366 \<and>
              pool (cpv_t_of [\<lparr>x = 0, y = 0, ytime = 1, t2m = 30\<rparr>]) cx cy (nat (d - 1)) \<noteq> [] \<and>
              th = percentile_value
                     (concat (pool (cpv_t_of [\<lparr>x = 0, y = 0, ytime = 1, t2m = 30\<rparr>]) cx cy (nat (d - 1)))) 99"
    by blast
  have "((0, 0, 1), 30) \<in> set ths"
    unfolding mem cpv_t_of_single by (simp add: pool_single_first percentile_value_single)
  with eq show ?thesis by blast
qed

text \<open>
  Claim C6, as stated: a pool with fewer samples than the minimum (the specification
  suggests 30) ends the threshold computation with an error. A table with a single
  temperature has pools of one sample, and the computation returns its rows with the
  threshold taken from that one sample.
\<close>

theorem calculate_thresholds_single_sample:
  "\<not> isl (calculate_thresholds [\<lparr>x = 0, y = 0, ytime = 1, t2m = 30\<rparr>]) \<and>
   (\<lparr>x = 0, y = 0, ytime = 1, t2m = 30\<rparr>, 30)
     \<in> set (projr (calculate_thresholds [\<lparr>x = 0, y = 0, ytime = 1, t2m = 30\<rparr>]))"
proof -
  have "regular (cpv_t_of [\<lparr>x = 0, y = 0, ytime = 1, t2m = 30\<rparr>]) 1"
    unfolding cpv_t_of_single by (rule regular_single)
  note eq = calculate_thresholds_regular [OF this]
  have "((0, 0, 1), 30) \<in> set (concat (map (window_rows [((0, 0, 1), [30])]) [0..<366]))"
    by (subst thresholds_rows_mem) (simp add: pool_single_first percentile_value_single)
  then show ?thesis
    unfolding eq by (simp add: merge_mem cpv_t_of_single)
qed

text \<open>
  A table that is not regular: a cell with two temperatures on day 1 and one on day 2.
  NumPy refuses the ragged pool of the first window; this error concerns the shape of
  the pool and not its size.
\<close>

lemma calculate_thresholds_ragged:
  "calculate_thresholds
     [\<lparr>x = 0, y = 0, ytime = 1, t2m = 30\<rparr>, \<lparr>x = 0, y = 0, ytime = 1, t2m = 32\<rparr>,
      \<lparr>x = 0, y = 0, ytime = 2, t2m = 31\<rparr>] = Inl ValueError"
proof -
  let ?data = "[\<lparr>x = 0, y = 0, ytime = 1, t2m = 30\<rparr>, \<lparr>x = 0, y = 0, ytime = 1, t2m = 32\<rparr>,
      \<lparr>x = 0, y = 0, ytime = 2, t2m = 31\<rparr>]"
  have c: "cpv_t_of ?data = [((0, 0, 1), [30, 32]), ((0, 0, 2), [31])]"
    by code_simp
  have w: "window_thresholds [((0, 0, 1), [30, 32]), ((0, 0, 2), [31])] 0 = Inl ValueError"
    by code_simp
  have u: "[0..<366] = 0 # [Suc 0..<366]"
    by (rule upt_conv_Cons) simp
  have s: "sequence (Inl ValueError # rs) = Inl ValueError" for rs :: "(py_error + thresh_row list) list"
    by simp
  have "thresholds (cpv_t_of ?data) = Inl ValueError"
    unfolding thresholds_def c u list.map w s by simp
  then show ?thesis
    by (simp add: calculate_thresholds_def)
qed

text \<open>
  Claim C10 says that no record with day of year 366 reaches the extraction. The leap day
  is taken out of the graph \<open>g_t\<close> only; the thresholds, which the loop also computes for
  \<open>ytime = 366\<close>, are merged into the unfiltered table \<open>vt\<close>, so a leap-day record gets
  the threshold of the window of pass 365 and is extracted when it reaches it.
\<close>

theorem leap_day_record_is_extracted:
  "\<not> isl (extr [\<lparr>x = 0, y = 0, ytime = 1, t2m = 30\<rparr>,
                  \<lparr>x = 0, y = 0, ytime = 366, t2m = 40\<rparr>]) \<and>
   (\<lparr>x = 0, y = 0, ytime = 366, t2m = 40\<rparr>, 30)
     \<in> set (projr (extr [\<lparr>x = 0, y = 0, ytime = 1, t2m = 30\<rparr>,
                           \<lparr>x = 0, y = 0, ytime = 366, t2m = 40\<rparr>]))"
proof -
  let ?vt = "[\<lparr>x = 0, y = 0, ytime = 1, t2m = 30\<rparr>, \<lparr>x = 0, y = 0, ytime = 366, t2m = 40\<rparr>]"
  have g_t: "filter_by_values_v ytime (np_arange 0 366) ?vt = [\<lparr>x = 0, y = 0, ytime = 1, t2m = 30\<rparr>]"
    by (simp add: filter_by_values_v_def np_arange_def del: upto_rec_numeral)
  have "regular (cpv_t_of (filter_by_values_v ytime (np_arange 0 366) ?vt)) 1"
    unfolding g_t cpv_t_of_single by (rule regular_single)
  note eq = result_regular [OF this]
  have "((0, 0, 366), 30) \<in> set (concat (map (window_rows [((0, 0, 1), [30])]) [0..<366]))"
    by (subst thresholds_rows_mem) (simp add: pool_single_last percentile_value_single)
  then show ?thesis
    unfolding extr_def eq by (simp add: merge_mem g_t cpv_t_of_single detect_extreme_events_def)
qed



subsection \<open>Edges of the graph\<close>

lemma create_edges_ft_unnamed:
  assumes "c \<in> set connectors" and "c_output c = None"
  shows "create_edges_ft ftt connectors selectors r_dtype_dic v = Inl ValueError"
proof -
  from assms have "list_ex (\<lambda>c. c_output c = None) connectors"
    unfolding list_ex_iff by blast
  then show ?thesis
    by (simp add: create_edges_ft_def)
qed

lemma create_edges_ft_grid_2d:
  "create_edges_ft 1 [connector_grid_2d_dx, connector_grid_2d_dy]
     [selector_grid_2d_dx, selector_grid_2d_dy] [''ft_r'', ''dx'', ''dy''] v = Inl ValueError"
  by (rule create_edges_ft_unnamed [of connector_grid_2d_dx])
     (simp_all add: connector_grid_2d_dx_def)

lemma create_cpv_raises: "create_cpv extr_data b = Inl ValueError"
  by (simp add: create_cpv_def Let_def create_edges_ft_grid_2d)

text \<open>
  Claim C1: the graph builder creates an edge between two extreme records iff their
  days differ by exactly 1 and their cells are neighbours. The edge creation of
  \<open>create_cpv\<close> ends with an error on every table of extreme records and creates no
  edge: its connectors \<open>grid_2d_dx\<close> and \<open>grid_2d_dy\<close> name no relation, so the
  relations \<open>dx\<close> and \<open>dy\<close> of its selectors do not exist.
\<close>

theorem create_cpv_creates_no_edge:
  "create_edges_ft 1 [connector_grid_2d_dx, connector_grid_2d_dy]
     [selector_grid_2d_dx, selector_grid_2d_dy] [''ft_r'', ''dx'', ''dy'']
     (sort_values_time extr_data) = Inl ValueError \<and>
   create_cpv extr_data b = Inl ValueError"
  by (simp add: create_edges_ft_grid_2d create_cpv_raises)

text \<open>
  With connectors that name their relations \<open>dx\<close> and \<open>dy\<close> the same call gives an
  edge table: the pairs at distance 1 or less in \<open>itime\<close>, \<open>x\<close> and \<open>y\<close>.
\<close>

lemma zip_boolean_index:
  assumes "length sources = length targets"
  shows "zip (boolean_index sources (map P (zip sources targets)))
             (boolean_index targets (map P (zip sources targets)))
         = filter P (zip sources targets)"
  using assms
  by (induction sources targets rule: list_induct2) (simp_all add: boolean_index_def)

lemma length_boolean_index:
  assumes "length sources = length targets"
  shows "length (boolean_index sources (map P (zip sources targets)))
         = length (boolean_index targets (map P (zip sources targets)))"
  using assms
  by (induction sources targets rule: list_induct2) (simp_all add: boolean_index_def)

lemma ft_pairs_mem:
  "(s, t) \<in> set (ft_pairs ftt v) \<longleftrightarrow>
     s < t \<and> t < length v \<and> itime (v ! t) - itime (v ! s) \<le> ftt"
  by (force simp: ft_pairs_def image_iff)

lemma select_edges_named:
  "select_edges [connector_grid_2d_dx\<lparr>c_output := Some ''dx''\<rparr>,
                 connector_grid_2d_dy\<lparr>c_output := Some ''dy''\<rparr>] v
     [selector_grid_2d_dx, selector_grid_2d_dy] sources targets =
   (let dx = map2 (\<lambda>s t. grid_2d_dx (x (v ! s)) (x (v ! t))) sources targets;
        (sources, targets) = s_grid_2d_dx dx sources targets;
        dy = map2 (\<lambda>s t. grid_2d_dy (y (v ! s)) (y (v ! t))) sources targets;
        (sources, targets) = s_grid_2d_dy dy sources targets
    in (sources, targets))"
  by (simp add: connector_grid_2d_dx_def connector_grid_2d_dy_def selector_grid_2d_dx_def
                selector_grid_2d_dy_def Let_def split: prod.split)

lemma create_edges_ft_named:
  "create_edges_ft ftt [connector_grid_2d_dx\<lparr>c_output := Some ''dx''\<rparr>,
                        connector_grid_2d_dy\<lparr>c_output := Some ''dy''\<rparr>]
     [selector_grid_2d_dx, selector_grid_2d_dy] [''ft_r'', ''dx'', ''dy''] v =
   Inr (filter (\<lambda>(s, t). \<bar>grid_2d_dy (y (v ! s)) (y (v ! t))\<bar> \<le> 1)
         (filter (\<lambda>(s, t). \<bar>grid_2d_dx (x (v ! s)) (x (v ! t))\<bar> \<le> 1) (ft_pairs ftt v)))"
proof -
  let ?cs = "[connector_grid_2d_dx\<lparr>c_output := Some ''dx''\<rparr>,
              connector_grid_2d_dy\<lparr>c_output := Some ''dy''\<rparr>]"
  let ?pairs = "ft_pairs ftt v"
  let ?Px = "\<lambda>(s, t). \<bar>grid_2d_dx (x (v ! s)) (x (v ! t))\<bar> \<le> 1"
  let ?Py = "\<lambda>(s, t). \<bar>grid_2d_dy (y (v ! s)) (y (v ! t))\<bar> \<le> 1"
  let ?src = "map fst ?pairs" and ?tgt = "map snd ?pairs"
  have len: "length ?src = length ?tgt" by simp
  have z: "zip ?src ?tgt = ?pairs" by (simp add: zip_map_fst_snd)
  let ?mx = "map (\<lambda>d. d \<le> 1) (map abs (map2 (\<lambda>s t. grid_2d_dx (x (v ! s)) (x (v ! t))) ?src ?tgt))"
  have mx: "?mx = map ?Px (zip ?src ?tgt)"
    by (simp add: case_prod_unfold)
  let ?src1 = "boolean_index ?src ?mx" and ?tgt1 = "boolean_index ?tgt ?mx"
  have len1: "length ?src1 = length ?tgt1"
    unfolding mx by (rule length_boolean_index [OF len])
  have z1: "zip ?src1 ?tgt1 = filter ?Px ?pairs"
    unfolding mx using zip_boolean_index [OF len, of ?Px] by (simp only: z)
  let ?my = "map (\<lambda>d. d \<le> 1) (map abs (map2 (\<lambda>s t. grid_2d_dy (y (v ! s)) (y (v ! t))) ?src1 ?tgt1))"
  have my: "?my = map ?Py (zip ?src1 ?tgt1)"
    by (simp add: case_prod_unfold)
  have z2: "zip (boolean_index ?src1 ?my) (boolean_index ?tgt1 ?my) = filter ?Py (filter ?Px ?pairs)"
    unfolding my using zip_boolean_index [OF len1, of ?Py] by (simp only: z1)
  have sel: "select_edges ?cs v [selector_grid_2d_dx, selector_grid_2d_dy] ?src ?tgt
             = (boolean_index ?src1 ?my, boolean_index ?tgt1 ?my)"
    unfolding select_edges_named s_grid_2d_dx_def s_grid_2d_dy_def Let_def prod.case
    by (rule refl)
  have ok1: "\<not> list_ex (\<lambda>c. c_output c = None) ?cs"
    by simp
  have ok2: "\<not> list_ex (\<lambda>r. r \<notin> set (output_rs ?cs))
               (map s_input [selector_grid_2d_dx, selector_grid_2d_dy] @ [''ft_r'', ''dx'', ''dy''])"
    by (simp add: output_rs_def List.map_filter_simps selector_grid_2d_dx_def
                  selector_grid_2d_dy_def)
  show ?thesis
    unfolding create_edges_ft_def Let_def sel prod.case z2
    using ok1 ok2 by (simp only: if_False)
qed

lemma create_edges_ft_named_mem:
  assumes "create_edges_ft ftt [connector_grid_2d_dx\<lparr>c_output := Some ''dx''\<rparr>,
                                connector_grid_2d_dy\<lparr>c_output := Some ''dy''\<rparr>]
             [selector_grid_2d_dx, selector_grid_2d_dy] [''ft_r'', ''dx'', ''dy''] v = Inr e"
  shows "(s, t) \<in> set e \<longleftrightarrow>
     s < t \<and> t < length v \<and> itime (v ! t) - itime (v ! s) \<le> ftt \<and>
     \<bar>x (v ! t) - x (v ! s)\<bar> \<le> 1 \<and> \<bar>y (v ! t) - y (v ! s)\<bar> \<le> 1"
  using assms unfolding create_edges_ft_named
  by (auto simp: ft_pairs_mem grid_2d_dx_def grid_2d_dy_def)

lemma create_edges_ft_named_in_range:
  assumes "create_edges_ft ftt [connector_grid_2d_dx\<lparr>c_output := Some ''dx''\<rparr>,
                                connector_grid_2d_dy\<lparr>c_output := Some ''dy''\<rparr>]
             [selector_grid_2d_dx, selector_grid_2d_dy] [''ft_r'', ''dx'', ''dy''] v = Inr e"
  shows "\<forall>a\<in>set e. fst a < length v \<and> snd a < length v"
  using create_edges_ft_named_mem [OF assms] by auto

lemma sorted_sort_values_time: "sorted (map itime (sort_values_time extr_data))"
  by (simp add: sort_values_time_def)

lemma length_sort_values_time: "length (sort_values_time extr_data) = length extr_data"
  by (simp add: sort_values_time_def)

lemma create_edges_ft_named_sorted:
  assumes "create_edges_ft 1 [connector_grid_2d_dx\<lparr>c_output := Some ''dx''\<rparr>,
                              connector_grid_2d_dy\<lparr>c_output := Some ''dy''\<rparr>]
             [selector_grid_2d_dx, selector_grid_2d_dy] [''ft_r'', ''dx'', ''dy''] v = Inr e"
    and "sorted (map itime v)" and "s < length v" and "t < length v" and "s \<noteq> t"
  shows "(s, t) \<in> set e \<or> (t, s) \<in> set e \<longleftrightarrow>
         \<bar>itime (v ! s) - itime (v ! t)\<bar> \<le> 1 \<and>
         \<bar>x (v ! s) - x (v ! t)\<bar> \<le> 1 \<and> \<bar>y (v ! s) - y (v ! t)\<bar> \<le> 1"
proof -
  note mem = create_edges_ft_named_mem [OF assms(1)]
  have le: "itime (v ! i) \<le> itime (v ! j)" if "i < j" "j < length v" for i j
    using sorted_nth_mono [OF assms(2), of i j] that by simp
  consider "s < t" | "t < s" using assms(5) by linarith
  then show ?thesis
  proof cases
    case 1
    with le [of s t] assms(4) show ?thesis
      by (auto simp: mem)
  next
    case 2
    with le [of t s] assms(3) show ?thesis
      by (auto simp: mem)
  qed
qed

lemma create_edges_ft_named_same_day:
  "create_edges_ft 1 [connector_grid_2d_dx\<lparr>c_output := Some ''dx''\<rparr>,
                      connector_grid_2d_dy\<lparr>c_output := Some ''dy''\<rparr>]
     [selector_grid_2d_dx, selector_grid_2d_dy] [''ft_r'', ''dx'', ''dy'']
     [\<lparr>x = 3, y = 7, ytime = 200, t2m = 40, itime = 5, g_id = 1, magnitude = 1\<rparr>,
      \<lparr>x = 4, y = 7, ytime = 200, t2m = 41, itime = 5, g_id = 2, magnitude = 1\<rparr>]
   = Inr [(0, 1)]"
  by code_simp

subsection \<open>Component labels\<close>

lemma linked_sym: "(i, j) \<in> linked e \<Longrightarrow> (j, i) \<in> linked e"
  unfolding linked_def using sym_rtrancl [OF sym_Un_converse] by (rule symD)

lemma linked_trans: "(i, j) \<in> linked e \<Longrightarrow> (j, k) \<in> linked e \<Longrightarrow> (i, k) \<in> linked e"
  unfolding linked_def by (rule rtrancl_trans)

lemma linked_refl: "(i, i) \<in> linked e"
  unfolding linked_def by simp

lemma linked_set_cong: "set e1 = set e2 \<Longrightarrow> linked e1 = linked e2"
  by (simp add: linked_def)

lemma linked_snoc:
  "(i, j) \<in> linked (e @ [(s, t)]) \<longleftrightarrow>
     (i, j) \<in> linked e \<or> ((i, s) \<in> linked e \<and> (t, j) \<in> linked e)
       \<or> ((i, t) \<in> linked e \<and> (s, j) \<in> linked e)"
proof -
  let ?R = "set e \<union> (set e)\<inverse>"
  let ?B = "(insert (s, t) ?R)\<^sup>*"
  have eq: "set (e @ [(s, t)]) \<union> (set (e @ [(s, t)]))\<inverse> = insert (t, s) (insert (s, t) ?R)"
    by auto
  have B: "(p, q) \<in> ?B \<longleftrightarrow> (p, q) \<in> linked e \<or> ((p, s) \<in> linked e \<and> (t, q) \<in> linked e)"
    for p q
    by (simp add: rtrancl_insert linked_def)
  have C: "(i, j) \<in> linked (e @ [(s, t)]) \<longleftrightarrow> (i, j) \<in> ?B \<or> ((i, t) \<in> ?B \<and> (s, j) \<in> ?B)"
    unfolding linked_def eq by (simp add: rtrancl_insert [of t s])
  have t1: "(i, t) \<in> linked e \<Longrightarrow> (t, j) \<in> linked e \<Longrightarrow> (i, j) \<in> linked e"
    by (rule linked_trans)
  have t2: "(i, s) \<in> linked e \<Longrightarrow> (s, j) \<in> linked e \<Longrightarrow> (i, j) \<in> linked e"
    by (rule linked_trans)
  have r: "(s, s) \<in> linked e" "(t, t) \<in> linked e"
    by (rule linked_refl)+
  show ?thesis
    unfolding C B using t1 t2 r by blast
qed

lemma length_union_cp: "length (union_cp e labels) = length labels"
  by (simp add: union_cp_def Let_def)

lemma length_connected_components: "length (connected_components n e) = n"
proof -
  have "length (fold union_cp e labels) = length labels" for labels
    by (induction e arbitrary: labels) (simp_all add: length_union_cp)
  then show ?thesis by (simp add: connected_components_def)
qed

lemma connected_components_snoc:
  "connected_components n (e @ [a]) = union_cp a (connected_components n e)"
  by (simp add: connected_components_def)

lemma connected_components_linked:
  assumes "\<forall>a\<in>set e. fst a < n \<and> snd a < n" and "i < n" and "j < n"
  shows "connected_components n e ! i = connected_components n e ! j \<longleftrightarrow> (i, j) \<in> linked e"
  using assms
proof (induction e arbitrary: i j rule: rev_induct)
  case Nil
  then show ?case
    by (simp add: connected_components_def linked_def)
next
  case (snoc a e)
  obtain s t where a: "a = (s, t)" by (cases a)
  let ?l = "connected_components n e"
  from snoc.prems(1) a have st: "s < n" "t < n" by auto
  from snoc.prems(1) have r: "\<forall>a\<in>set e. fst a < n \<and> snd a < n" by simp
  have len: "length ?l = n" by (rule length_connected_components)
  have IH: "?l ! p = ?l ! q \<longleftrightarrow> (p, q) \<in> linked e" if "p < n" "q < n" for p q
    using snoc.IH [OF r that] .
  have nth: "connected_components n (e @ [a]) ! p = (if ?l ! p = ?l ! t then ?l ! s else ?l ! p)"
    if "p < n" for p
    using that st len by (simp add: connected_components_snoc union_cp_def a)
  have e1: "(i, j) \<in> linked e \<longleftrightarrow> ?l ! i = ?l ! j"
    and e2: "(i, s) \<in> linked e \<longleftrightarrow> ?l ! i = ?l ! s"
    and e3: "(i, t) \<in> linked e \<longleftrightarrow> ?l ! i = ?l ! t"
    and e4: "(s, j) \<in> linked e \<longleftrightarrow> ?l ! s = ?l ! j"
    and e5: "(t, j) \<in> linked e \<longleftrightarrow> ?l ! t = ?l ! j"
    using IH [OF snoc.prems(2) snoc.prems(3)] IH [OF snoc.prems(2) st(1)]
      IH [OF snoc.prems(2) st(2)] IH [OF st(1) snoc.prems(3)] IH [OF st(2) snoc.prems(3)]
    by simp_all
  have "connected_components n (e @ [a]) ! i = connected_components n (e @ [a]) ! j \<longleftrightarrow>
          (i, j) \<in> linked e \<or> ((i, s) \<in> linked e \<and> (t, j) \<in> linked e)
            \<or> ((i, t) \<in> linked e \<and> (s, j) \<in> linked e)"
    unfolding nth [OF snoc.prems(2)] nth [OF snoc.prems(3)] e1 e2 e3 e4 e5
    by auto
  then show ?case
    unfolding a linked_snoc .
qed


lemma count_list_nth_one:
  assumes "i < length xs"
  shows "count_list xs (xs ! i) = 1 \<longleftrightarrow> (\<forall>j<length xs. xs ! j = xs ! i \<longrightarrow> j = i)"
proof -
  define S where "S = {j. j < length xs \<and> xs ! i = xs ! j}"
  have c: "count_list xs (xs ! i) = card S"
    by (simp add: S_def count_list_eq_length_filter length_filter_conv_card)
  have mem: "k \<in> S \<longleftrightarrow> k < length xs \<and> xs ! k = xs ! i" for k
    unfolding S_def by (simp add: eq_commute)
  have i: "i \<in> S" using assms by (simp add: mem)
  show ?thesis
  proof
    assume "count_list xs (xs ! i) = 1"
    with c have "card S = 1" by simp
    then have "\<exists>a. S = {a}" by (simp add: card_1_singleton_iff)
    then obtain a where a: "S = {a}" ..
    from i have ia: "i = a" unfolding a by simp
    show "\<forall>j<length xs. xs ! j = xs ! i \<longrightarrow> j = i"
    proof (intro allI impI)
      fix j
      assume "j < length xs" and "xs ! j = xs ! i"
      then have "j \<in> S" by (simp add: mem)
      then show "j = i" unfolding a ia by simp
    qed
  next
    assume H: "\<forall>j<length xs. xs ! j = xs ! i \<longrightarrow> j = i"
    have "S = {i}"
    proof (rule equalityI; rule subsetI)
      fix k
      assume "k \<in> S"
      then have "k < length xs" "xs ! k = xs ! i" by (simp_all add: mem)
      with H have "k = i" by blast
      then show "k \<in> {i}" by simp
    next
      fix k
      assume "k \<in> {i}"
      with i show "k \<in> S" by simp
    qed
    with c show "count_list xs (xs ! i) = 1" by simp
  qed
qed

lemma append_cp_nth:
  assumes "i < n"
  shows "append_cp n e ! i =
           (if count_list (connected_components n e) (connected_components n e ! i) = 1
            then 0 else connected_components n e ! i + 1)"
  using assms by (simp add: append_cp_def Let_def length_connected_components)

lemma length_append_cp: "length (append_cp n e) = n"
  by (simp add: append_cp_def Let_def length_connected_components)

lemma single_linked:
  assumes "\<forall>a\<in>set e. fst a < n \<and> snd a < n" and "i < n"
  shows "count_list (connected_components n e) (connected_components n e ! i) = 1 \<longleftrightarrow>
           (\<forall>j<n. (i, j) \<in> linked e \<longrightarrow> j = i)"
proof -
  let ?l = "connected_components n e"
  have len: "length ?l = n" by (rule length_connected_components)
  have lk: "?l ! j = ?l ! i \<longleftrightarrow> (i, j) \<in> linked e" if "j < n" for j
    using connected_components_linked [OF assms(1) assms(2) that] by auto
  have "count_list ?l (?l ! i) = 1 \<longleftrightarrow> (\<forall>j<n. ?l ! j = ?l ! i \<longrightarrow> j = i)"
    using count_list_nth_one [of i ?l] assms(2) len by simp
  also have "\<dots> \<longleftrightarrow> (\<forall>j<n. (i, j) \<in> linked e \<longrightarrow> j = i)"
    by (simp add: lk)
  finally show ?thesis .
qed

lemma append_cp_linked:
  assumes "\<forall>a\<in>set e. fst a < n \<and> snd a < n" and "i < n" and "j < n"
  shows "append_cp n e ! i = append_cp n e ! j \<longleftrightarrow>
           (i, j) \<in> linked e \<or>
           ((\<forall>k<n. (i, k) \<in> linked e \<longrightarrow> k = i) \<and> (\<forall>k<n. (j, k) \<in> linked e \<longrightarrow> k = j))"
proof -
  let ?l = "connected_components n e"
  define Ii where "Ii \<longleftrightarrow> (\<forall>k<n. (i, k) \<in> linked e \<longrightarrow> k = i)"
  define Ij where "Ij \<longleftrightarrow> (\<forall>k<n. (j, k) \<in> linked e \<longrightarrow> k = j)"
  define L where "L \<longleftrightarrow> (i, j) \<in> linked e"
  have si: "count_list ?l (?l ! i) = 1 \<longleftrightarrow> Ii"
    unfolding Ii_def by (rule single_linked [OF assms(1) assms(2)])
  have sj: "count_list ?l (?l ! j) = 1 \<longleftrightarrow> Ij"
    unfolding Ij_def by (rule single_linked [OF assms(1) assms(3)])
  have lk: "?l ! i = ?l ! j \<longleftrightarrow> L"
    unfolding L_def by (rule connected_components_linked [OF assms])
  have ij: "L \<Longrightarrow> Ii \<Longrightarrow> Ij"
  proof -
    assume "L" "Ii"
    then have "j = i" using assms(3) unfolding L_def Ii_def by blast
    with \<open>Ii\<close> show "Ij" unfolding Ii_def Ij_def by simp
  qed
  have ji: "L \<Longrightarrow> Ij \<Longrightarrow> Ii"
  proof -
    assume "L" "Ij"
    from \<open>L\<close> have "(j, i) \<in> linked e" unfolding L_def by (rule linked_sym)
    with \<open>Ij\<close> have "i = j" using assms(2) unfolding Ij_def by blast
    with \<open>Ij\<close> show "Ii" unfolding Ii_def Ij_def by simp
  qed
  have "append_cp n e ! i = append_cp n e ! j \<longleftrightarrow> (Ii \<and> Ij) \<or> (\<not> Ii \<and> \<not> Ij \<and> L)"
  proof -
    have "append_cp n e ! i = (if Ii then 0 else ?l ! i + 1)"
      unfolding append_cp_nth [OF assms(2)] si ..
    moreover have "append_cp n e ! j = (if Ij then 0 else ?l ! j + 1)"
      unfolding append_cp_nth [OF assms(3)] sj ..
    ultimately show ?thesis
      using lk by (cases Ii; cases Ij) simp_all
  qed
  also have "\<dots> \<longleftrightarrow> L \<or> (Ii \<and> Ij)"
    using ij ji by blast
  finally show ?thesis
    unfolding L_def Ii_def Ij_def .
qed

text \<open>
  Claim C8. The partition into components is a function of the set of edges: two edge
  tables over the \<open>n\<close> nodes that hold the same edges, in any order and with any
  repetition, give any two nodes the same label in the one exactly when they have the
  same label in the other.
\<close>

theorem append_cp_edge_set:
  assumes "set e1 = set e2" and "\<forall>a\<in>set e1. fst a < n \<and> snd a < n"
    and "i < n" and "j < n"
  shows "append_cp n e1 ! i = append_cp n e1 ! j \<longleftrightarrow> append_cp n e2 ! i = append_cp n e2 ! j"
proof -
  from assms(1,2) have r2: "\<forall>a\<in>set e2. fst a < n \<and> snd a < n" by simp
  have l: "linked e1 = linked e2" by (rule linked_set_cong [OF assms(1)])
  have "append_cp n e1 ! i = append_cp n e1 ! j \<longleftrightarrow>
           (i, j) \<in> linked e1 \<or>
           ((\<forall>k<n. (i, k) \<in> linked e1 \<longrightarrow> k = i) \<and> (\<forall>k<n. (j, k) \<in> linked e1 \<longrightarrow> k = j))"
    by (rule append_cp_linked [OF assms(2) assms(3) assms(4)])
  also have "\<dots> \<longleftrightarrow> append_cp n e2 ! i = append_cp n e2 ! j"
    unfolding l by (rule append_cp_linked [OF r2 assms(3) assms(4), symmetric])
  finally show ?thesis .
qed


theorem append_cp_edge_set_witness:
  "(append_cp 4 [(0, 1), (1, 2)] ! 0 = append_cp 4 [(0, 1), (1, 2)] ! 2) \<and>
   (append_cp 4 [(1, 2), (0, 1), (0, 1)] ! 0 = append_cp 4 [(1, 2), (0, 1), (0, 1)] ! 2) \<and>
   append_cp 4 [(0, 1), (1, 2)] = [1, 1, 1, 0] \<and>
   append_cp 4 [(1, 2), (0, 1), (0, 1)] = [1, 1, 1, 0]"
proof -
  have s: "set [(0::nat, 1::nat), (1, 2)] = set [(1, 2), (0, 1), (0, 1)]"
    by auto
  have r: "\<forall>a\<in>set [(0::nat, 1::nat), (1, 2)]. fst a < 4 \<and> snd a < 4"
    by simp
  have l1: "append_cp 4 [(0, 1), (1, 2)] = [1, 1, 1, 0]"
    by code_simp
  have l2: "append_cp 4 [(1, 2), (0, 1), (0, 1)] = [1, 1, 1, 0]"
    by code_simp
  have i: "(0::nat) < 4" and j: "(2::nat) < 4" by simp_all
  from append_cp_edge_set [OF s r i j] l1 l2 show ?thesis
    by simp
qed



subsection \<open>Sub-clustering\<close>

lemma tri_Suc: "Suc n * (Suc n - 1) div 2 = n * (n - 1) div 2 + n"
proof -
  have "Suc n * (Suc n - 1) = n * (n - 1) + n * 2"
    by (cases n) (simp_all add: algebra_simps)
  then have "Suc n * (Suc n - 1) div 2 = (n * (n - 1) + n * 2) div 2"
    by (rule arg_cong)
  also have "\<dots> = n * (n - 1) div 2 + n"
    by simp
  finally show ?thesis .
qed

lemma sum_below: "(\<Sum>s<m. s) = m * (m - 1) div (2::nat)"
proof (induction m)
  case 0
  then show ?case by simp
next
  case (Suc m)
  have "(\<Sum>s<Suc m. s) = (\<Sum>s<m. s) + m" by simp
  also have "\<dots> = m * (m - 1) div 2 + m" by (simp only: Suc.IH)
  also have "\<dots> = Suc m * (Suc m - 1) div 2" by (rule tri_Suc [symmetric])
  finally show ?case .
qed

lemma length_create_edges_pairs: "length (create_edges_pairs m) = m * (m - 1) div 2"
proof -
  have "length (create_edges_pairs m) = sum_list (map (\<lambda>s. m - Suc s) [0..<m])"
    by (simp add: create_edges_pairs_def length_concat comp_def)
  also have "\<dots> = (\<Sum>s<m. m - Suc s)"
    by (simp add: interv_sum_list_conv_sum_set_nat atLeast0LessThan)
  also have "\<dots> = (\<Sum>s<m. s)"
    by (rule sum.nat_diff_reindex)
  finally show ?thesis by (simp only: sum_below)
qed

lemma tri_mono:
  fixes n m :: nat
  assumes "n < m" and "1 \<le> n"
  shows "n * (n - 1) div 2 < m * (m - 1) div 2"
  using assms
proof (induction m)
  case 0
  then show ?case by simp
next
  case (Suc m)
  have s: "Suc m * (Suc m - 1) div 2 = m * (m - 1) div 2 + m" by (rule tri_Suc)
  show ?case
  proof (cases "n = m")
    case True
    with Suc.prems show ?thesis unfolding s by simp
  next
    case False
    with Suc.prems have "n < m" by simp
    with Suc.IH Suc.prems have "n * (n - 1) div 2 < m * (m - 1) div 2" by simp
    then show ?thesis unfolding s by simp
  qed
qed

lemma tri_ge:
  fixes m :: nat
  assumes "2 \<le> m"
  shows "m < m * (m - 1) div 2 + 2"
proof -
  from assms obtain k where m: "m = Suc k" and k: "1 \<le> k" by (cases m) auto
  have "m * (m - 1) div 2 = k * (k - 1) div 2 + k"
    unfolding m by (rule tri_Suc)
  with m show ?thesis by simp
qed

lemma num_obs_y_tri:
  assumes "2 \<le> m"
  shows "num_obs_y (m * (m - 1) div 2) = Some m"
proof -
  define len where "len = m * (m - 1) div 2"
  let ?xs = "[2..<len + 2]"
  have lt: "m < len + 2" unfolding len_def by (rule tri_ge [OF assms])
  have lxs: "length ?xs = len" by (simp only: length_upt diff_add_inverse2)
  from lt assms have "m - 2 < len" by arith
  then have m: "m - 2 < length ?xs" by (simp only: lxs)
  have "?xs ! (m - 2) = 2 + (m - 2)"
    using \<open>m - 2 < len\<close> by (intro nth_upt) arith
  with assms have nth: "?xs ! (m - 2) = m" by simp
  have "find (\<lambda>n. n * (n - 1) div 2 = len) ?xs = Some m"
    unfolding find_Some_iff
  proof (intro exI [of _ "m - 2"] conjI allI impI)
    show "m - 2 < length ?xs" by (rule m)
    show "?xs ! (m - 2) * (?xs ! (m - 2) - 1) div 2 = len" unfolding nth by (simp only: len_def)
    show "m = ?xs ! (m - 2)" by (simp only: nth)
  next
    fix j
    assume j: "j < m - 2"
    with \<open>m - 2 < len\<close> have "?xs ! j = 2 + j"
      by (intro nth_upt) arith
    then have "?xs ! j = j + 2" by simp
    moreover from j have "(j + 2) * (j + 2 - 1) div 2 < len"
      unfolding len_def by (intro tri_mono) simp_all
    ultimately show "\<not> ?xs ! j * (?xs ! j - 1) div 2 = len" by simp
  qed
  then show ?thesis by (simp add: num_obs_y_def len_def)
qed

lemma num_obs_y_0: "num_obs_y 0 = None"
  by (simp add: num_obs_y_def)

lemma create_edges_pairs_mem:
  "p \<in> set (create_edges_pairs m) \<longleftrightarrow> fst p < snd p \<and> snd p < m"
  by (cases p) (force simp: create_edges_pairs_def image_iff)


lemma n_unique_g_ids_pos:
  assumes "c \<noteq> []"
  shows "0 < n_unique_g_ids c"
  using assms by (simp add: n_unique_g_ids_def g_ids_def card_gt_0_iff)

lemma cp_intersection_strength_map:
  "cp_intersection_strength (map ns ps) (map nt ps) (cp_node_intersection (map gs ps) (map gt ps))
   = map (\<lambda>p. if real (min (ns p) (nt p)) = 0 then None
               else Some (real (card (gs p \<inter> gt p)) / real (min (ns p) (nt p)))) ps"
  by (induction ps) (simp_all add: cp_intersection_strength_def cp_node_intersection_def Let_def)

lemma intsec_strength_values_map:
  "intsec_strength_values cpv =
     map (\<lambda>p. if real (min (n_unique_g_ids (cpv ! fst p)) (n_unique_g_ids (cpv ! snd p))) = 0
               then None
               else Some (real (card (g_ids (cpv ! fst p) \<inter> g_ids (cpv ! snd p))) /
                          real (min (n_unique_g_ids (cpv ! fst p)) (n_unique_g_ids (cpv ! snd p)))))
         (create_edges_pairs (length cpv))"
  unfolding intsec_strength_values_def intsec_card_values_def Let_def map_map comp_def
  by (rule cp_intersection_strength_map)

lemma length_intsec_strength_values:
  "length (intsec_strength_values cpv) = length cpv * (length cpv - 1) div 2"
  unfolding intsec_strength_values_map by (simp only: length_map length_create_edges_pairs)

lemma intsec_strength_values_finite:
  assumes "\<forall>c\<in>set cpv. c \<noteq> []"
  shows "None \<notin> set (intsec_strength_values cpv)"
proof
  assume "None \<in> set (intsec_strength_values cpv)"
  then obtain p where p: "p \<in> set (create_edges_pairs (length cpv))"
    and z: "min (n_unique_g_ids (cpv ! fst p)) (n_unique_g_ids (cpv ! snd p)) = 0"
    unfolding intsec_strength_values_map by (auto split: if_splits)
  from p have "fst p < length cpv" and "snd p < length cpv"
    by (auto simp: create_edges_pairs_mem)
  with assms have "cpv ! fst p \<noteq> []" and "cpv ! snd p \<noteq> []"
    by (simp_all add: all_set_conv_all_nth)
  then have "0 < n_unique_g_ids (cpv ! fst p)" and "0 < n_unique_g_ids (cpv ! snd p)"
    by (simp_all add: n_unique_g_ids_pos)
  with z show False by simp
qed

lemma length_fcluster: "length (fcluster lm t) = fst lm"
  by (simp add: fcluster_def Let_def)

lemma length_relabel_by_size: "length (relabel_by_size T) = length T"
  by (simp add: relabel_by_size_def Let_def)

lemma linkage_two_or_more:
  assumes "2 \<le> m" and "length dv = m * (m - 1) div 2" and "None \<notin> set dv"
  shows "linkage dv = Inr (m, agglomerate (map the dv) m (m - 1) (map (\<lambda>i. [i]) [0..<m]))"
proof -
  from assms(3) have "\<not> list_ex (\<lambda>d. d = None) dv"
    by (auto simp: list_ex_iff)
  then show ?thesis
    unfolding linkage_def assms(2) num_obs_y_tri [OF assms(1)] by simp
qed





text \<open>
  With connectors that name their relations \<open>intsec_card\<close> and \<open>intsec_strength\<close>
  the step gives a label to each heatwave of a family of two or more, whatever the
  cluster count, and ends in \<open>linkage\<close> for a family of fewer than two.
\<close>

lemma sub_clustering_named:
  "sub_clustering (Some ''intsec_card'') (Some ''intsec_strength'') cpv u =
     (case linkage (map (map_option (\<lambda>s. 1 - s)) (intsec_strength_values cpv)) of
        Inl err \<Rightarrow> Inl err
      | Inr lm \<Rightarrow> Inr (relabel_by_size (fcluster lm u)))"
  by (simp add: sub_clustering_def create_edges_def edge_column_def Let_def)

lemma sub_clustering_named_two_or_more:
  assumes "2 \<le> length cpv" and "\<forall>c\<in>set cpv. c \<noteq> []"
  shows "\<exists>labels. sub_clustering (Some ''intsec_card'') (Some ''intsec_strength'') cpv u
                     = Inr labels \<and> length labels = length cpv"
proof -
  let ?dv = "map (map_option (\<lambda>s. 1 - s)) (intsec_strength_values cpv)"
  have len: "length ?dv = length cpv * (length cpv - 1) div 2"
    by (simp add: length_intsec_strength_values)
  from intsec_strength_values_finite [OF assms(2)] have fin: "None \<notin> set ?dv"
    by auto
  from linkage_two_or_more [OF assms(1) len fin] show ?thesis
    unfolding sub_clustering_named
    by (simp add: length_relabel_by_size length_fcluster)
qed

lemma sub_clustering_named_fewer_than_two:
  assumes "length cpv < 2"
  shows "sub_clustering (Some ''intsec_card'') (Some ''intsec_strength'') cpv u = Inl ValueError"
proof -
  from assms have "length cpv * (length cpv - 1) div 2 = 0"
    by (cases cpv) auto
  then have "length (map (map_option (\<lambda>s. 1 - s)) (intsec_strength_values cpv)) = 0"
    by (simp add: length_intsec_strength_values)
  then show ?thesis
    unfolding sub_clustering_named by (simp add: linkage_def num_obs_y_0)
qed

end
